theory Spec2Isabelle
  imports Complex_Main "HOL-Library.Signed_Division" "HOL-Library.Monad_Syntax"

begin

section \<open>Material point method, 3D (mpm3.cpp)\<close>

text \<open>
  A shallow embedding of the transfer pipeline of \<^verbatim>\<open>MPM3D\<close>
  (\<^verbatim>\<open>src/simulation3d/mpm/mpm3.cpp\<close>). The C++ type \<^verbatim>\<open>real\<close>
  (single-precision \<^verbatim>\<open>float\<close>) is idealised as the type \<^typ>\<open>real\<close>
  of exact real numbers, except at the bound of the clamps of the position integration,
  which is rounded to single precision as the source computes it; elsewhere rounding,
  infinities and NaN are not part of this model, and no property below rests on the sign
  of a kernel weight. The
  type \<^verbatim>\<open>int64\<close> is \<^typ>\<open>int\<close>, with the range of 64-bit signed
  integers checked in the tick computation of the scheduler step. An \<^verbatim>\<open>assert\<close> that fails,
  a division by zero and a signed overflow are the value \<open>None\<close>. The parallel loops
  are run in list order; the per-node locks make every accumulation atomic, so a sequential
  run is one of the admitted schedules. The macro \<^verbatim>\<open>CV\<close> checks a value for NaN and
  infinity and changes nothing; over the real numbers it never fires and is left out.
  Functions, constants and virtual methods that the file uses and that are declared
  elsewhere are either arguments of the functions below or modelled from the spec, and
  marked so.
\<close>

subsection \<open>Vectors, matrices and grid indices\<close>

text \<open>
  \<^verbatim>\<open>Vector3\<close> and \<^verbatim>\<open>Matrix3\<close> are the glm types: a matrix is
  stored by columns, its nine-argument constructor fills column after column, and
  \<^verbatim>\<open>Matrix(s)\<close> is the diagonal matrix of the scalar \<open>s\<close>.
\<close>

datatype Vector3 = Vector3 (vx: real) (vy: real) (vz: real)

instantiation Vector3 :: ab_group_add

begin

definition zero_Vector3 :: Vector3 where
  "zero_Vector3 = Vector3 0 0 0"

definition plus_Vector3 :: "Vector3 \<Rightarrow> Vector3 \<Rightarrow> Vector3" where
  "plus_Vector3 a b = Vector3 (vx a + vx b) (vy a + vy b) (vz a + vz b)"

definition uminus_Vector3 :: "Vector3 \<Rightarrow> Vector3" where
  "uminus_Vector3 a = Vector3 (- vx a) (- vy a) (- vz a)"

definition minus_Vector3 :: "Vector3 \<Rightarrow> Vector3 \<Rightarrow> Vector3" where
  "minus_Vector3 a b = Vector3 (vx a - vx b) (vy a - vy b) (vz a - vz b)"

instance
  by standard
    (simp_all add: zero_Vector3_def plus_Vector3_def uminus_Vector3_def minus_Vector3_def)

end

definition vscale :: "real \<Rightarrow> Vector3 \<Rightarrow> Vector3" where
  "vscale s a = Vector3 (s * vx a) (s * vy a) (s * vz a)"

definition dot :: "Vector3 \<Rightarrow> Vector3 \<Rightarrow> real" where
  "dot a b = vx a * vx b + vy a * vy b + vz a * vz b"

definition vlength :: "Vector3 \<Rightarrow> real" where
  "vlength a = sqrt (dot a a)"

definition normalize_Vector3 :: "Vector3 \<Rightarrow> Vector3" where
  "normalize_Vector3 a = vscale (1 / sqrt (dot a a)) a"

datatype Matrix3 = Matrix3 (col0: Vector3) (col1: Vector3) (col2: Vector3)

instantiation Matrix3 :: ab_group_add

begin

definition zero_Matrix3 :: Matrix3 where
  "zero_Matrix3 = Matrix3 0 0 0"

definition plus_Matrix3 :: "Matrix3 \<Rightarrow> Matrix3 \<Rightarrow> Matrix3" where
  "plus_Matrix3 a b = Matrix3 (col0 a + col0 b) (col1 a + col1 b) (col2 a + col2 b)"

definition uminus_Matrix3 :: "Matrix3 \<Rightarrow> Matrix3" where
  "uminus_Matrix3 a = Matrix3 (- col0 a) (- col1 a) (- col2 a)"

definition minus_Matrix3 :: "Matrix3 \<Rightarrow> Matrix3 \<Rightarrow> Matrix3" where
  "minus_Matrix3 a b = Matrix3 (col0 a - col0 b) (col1 a - col1 b) (col2 a - col2 b)"

instance
  by standard
    (simp_all add: zero_Matrix3_def plus_Matrix3_def uminus_Matrix3_def minus_Matrix3_def)

end

definition Matrix_diag :: "real \<Rightarrow> Matrix3" where
  "Matrix_diag s = Matrix3 (Vector3 s 0 0) (Vector3 0 s 0) (Vector3 0 0 s)"

definition mscale :: "real \<Rightarrow> Matrix3 \<Rightarrow> Matrix3" where
  "mscale s m = Matrix3 (vscale s (col0 m)) (vscale s (col1 m)) (vscale s (col2 m))"

definition mat_vec :: "Matrix3 \<Rightarrow> Vector3 \<Rightarrow> Vector3" where
  "mat_vec m a = vscale (vx a) (col0 m) + vscale (vy a) (col1 m) + vscale (vz a) (col2 m)"

definition mat_mul :: "Matrix3 \<Rightarrow> Matrix3 \<Rightarrow> Matrix3" where
  "mat_mul m n = Matrix3 (mat_vec m (col0 n)) (mat_vec m (col1 n)) (mat_vec m (col2 n))"

text \<open>\<^verbatim>\<open>glm::outerProduct(c, r)\<close>: column \<open>i\<close> of the result is \<open>c\<close> times \<open>r[i]\<close>.\<close>

definition outerProduct :: "Vector3 \<Rightarrow> Vector3 \<Rightarrow> Matrix3" where
  "outerProduct c r = Matrix3 (vscale (vx r) c) (vscale (vy r) c) (vscale (vz r) c)"

type_synonym Index3D = "int \<times> int \<times> int"

definition Vector_of_index :: "Index3D \<Rightarrow> Vector3" where
  "Vector_of_index ind =
     (case ind of (i, j, k) \<Rightarrow> Vector3 (real_of_int i) (real_of_int j) (real_of_int k))"

text \<open>
  Modelled from the spec: \<^verbatim>\<open>clamp\<close> is a helper of the math utilities, which are
  not among the sources; it brings a value back into the interval of its two bounds.
\<close>

definition clamp :: "real \<Rightarrow> real \<Rightarrow> real \<Rightarrow> real" where
  "clamp a lo hi = (if a < lo then lo else if hi < a then hi else a)"

text \<open>A loop whose body may fail: the first failure ends the run.\<close>

fun for_each :: "('a \<Rightarrow> 's \<Rightarrow> 's option) \<Rightarrow> 'a list \<Rightarrow> 's \<Rightarrow> 's option" where
  "for_each f [] s = Some s"
| "for_each f (x # xs) s = (case f x s of None \<Rightarrow> None | Some s' \<Rightarrow> for_each f xs s')"

text \<open>A division of the source; a zero divisor is reported.\<close>

definition fdiv :: "real \<Rightarrow> real \<Rightarrow> real option" where
  "fdiv a b = (if b = 0 then None else Some (a / b))"

subsection \<open>Interpolation kernel\<close>

text \<open>
  \<^verbatim>\<open>inline float w(float x)\<close>: the absolute value is taken first, the
  assertion \<^verbatim>\<open>x <= 2\<close> is checked next, then the branch on \<^verbatim>\<open>x < 1\<close>.
\<close>

definition w :: "real \<Rightarrow> real option" where
  "w x0 =
     (let x = \<bar>x0\<bar> in
      if \<not> x \<le> 2 then None
      else if x < 1 then Some (0.5 * x * x * x - x * x + 2 / 3)
      else Some (- 1 / 6 * x * x * x + x * x - 2 * x + 4 / 3))"

text \<open>\<^verbatim>\<open>inline float dw(float x)\<close>: the sign is split off, then the same assertion.\<close>

definition dw :: "real \<Rightarrow> real option" where
  "dw x0 =
     (let s = (if x0 < 0 then - 1 else 1);
          x = x0 * s in
      if \<not> x \<le> 2 then None
      else let xx = x * x;
               val = (if x < 1 then 1.5 * xx - 2 * x else - 0.5 * xx + 2 * x - 2)
           in Some (s * val))"

text \<open>
  The 1D stencil of the partition-of-unity check: the sum of \<open>w (i - f)\<close> for the
  integers \<open>i\<close> of a list, failing as soon as one evaluation of \<open>w\<close> fails.
\<close>

fun stencil_sum :: "int list \<Rightarrow> real \<Rightarrow> real option" where
  "stencil_sum [] f = Some 0"
| "stencil_sum (i # is) f =
     (case w (real_of_int i - f) of
        None \<Rightarrow> None
      | Some a \<Rightarrow> (case stencil_sum is f of None \<Rightarrow> None | Some s \<Rightarrow> Some (a + s)))"

text \<open>
  The same stencil in a build that compiles assertions out (\<^verbatim>\<open>NDEBUG\<close>):
  \<^verbatim>\<open>w\<close> then evaluates its second cubic at every \<open>x\<close> of magnitude 1 or more.
\<close>

definition w_unchecked :: "real \<Rightarrow> real" where
  "w_unchecked x0 =
     (let x = \<bar>x0\<bar> in
      if x < 1 then 0.5 * x * x * x - x * x + 2 / 3
      else - 1 / 6 * x * x * x + x * x - 2 * x + 4 / 3)"

definition stencil_sum_unchecked :: "int list \<Rightarrow> real \<Rightarrow> real" where
  "stencil_sum_unchecked is f = sum_list (map (\<lambda>i. w_unchecked (real_of_int i - f)) is)"

text \<open>The kernel on a vector: the product of the three per-axis weights, and its gradient.\<close>

definition w_Vector3 :: "Vector3 \<Rightarrow> real option" where
  "w_Vector3 a = do {
     wx \<leftarrow> w (vx a);
     wy \<leftarrow> w (vy a);
     wz \<leftarrow> w (vz a);
     Some (wx * wy * wz)
   }"

definition dw_Vector3 :: "Vector3 \<Rightarrow> Vector3 option" where
  "dw_Vector3 a = do {
     wx \<leftarrow> w (vx a);
     wy \<leftarrow> w (vy a);
     wz \<leftarrow> w (vz a);
     dx \<leftarrow> dw (vx a);
     dy \<leftarrow> dw (vy a);
     dz \<leftarrow> dw (vz a);
     Some (Vector3 (dx * wy * wz) (wx * dy * wz) (wx * wy * dz))
   }"

subsection \<open>Particles and the simulation state\<close>

datatype ParticleState = INACTIVE | BUFFER | UPDATING

record MPM3Particle =
  pos :: Vector3
  v :: Vector3
  mass :: real
  apic_b :: Matrix3
  dg_e :: Matrix3
  dg_p :: Matrix3
  dg_cache :: Matrix3
  state :: ParticleState
  last_update :: int

text \<open>
  The members of \<^verbatim>\<open>MPM3D\<close> that the transfer reads and writes. The particles are
  held by pointer in the source; here the vector \<open>particles\<close> is the store and the
  scheduler's list of active particles holds positions in it. The grid arrays are functions
  of the node index, read and written only at nodes of the grid.
\<close>

record MPM3D =
  res :: "int \<times> int \<times> int"
  apic :: bool
  base_delta_t :: real
  affine_damping :: real
  current_t_int :: int
  particles :: "MPM3Particle list"
  active_particles :: "nat list"
  active_grid_points :: "Index3D list"
  grid_velocity :: "Index3D \<Rightarrow> Vector3"
  grid_mass :: "Index3D \<Rightarrow> real"
  grid_velocity_backup :: "Index3D \<Rightarrow> Vector3"

text \<open>
  The region of the grid arrays, initialised with \<^verbatim>\<open>res + Vector3i(1)\<close>: the nodes
  \<open>0 .. res\<close> on every axis.
\<close>

definition grid_region :: "int \<times> int \<times> int \<Rightarrow> Index3D list" where
  "grid_region r =
     (case r of (rx, ry, rz) \<Rightarrow>
        [(i, j, k). i \<leftarrow> [0..rx], j \<leftarrow> [0..ry], k \<leftarrow> [0..rz]])"

text \<open>
  Modelled from the spec: \<^verbatim>\<open>get_bounded_rasterization_region\<close> is declared in the
  header of the class, which is not among the sources. It is the 4x4x4 neighbourhood of
  nodes around the particle, on which the kernel is defined (offsets of magnitude at most
  2), bounded to the nodes of the grid.
\<close>

definition get_bounded_rasterization_region :: "int \<times> int \<times> int \<Rightarrow> Vector3 \<Rightarrow> Index3D list" where
  "get_bounded_rasterization_region r p =
     (case r of (rx, ry, rz) \<Rightarrow>
        let x = \<lfloor>vx p\<rfloor>; y = \<lfloor>vy p\<rfloor>; z = \<lfloor>vz p\<rfloor> in
        [(i, j, k). i \<leftarrow> [max 0 (x - 1)..min rx (x + 2)],
                    j \<leftarrow> [max 0 (y - 1)..min ry (y + 2)],
                    k \<leftarrow> [max 0 (z - 1)..min rz (z + 2)]])"

text \<open>The full neighbourhood of a position lies inside the grid: nothing is cut off.\<close>

definition neighbourhood_inside_grid :: "int \<times> int \<times> int \<Rightarrow> Vector3 \<Rightarrow> bool" where
  "neighbourhood_inside_grid r p =
     (case r of (rx, ry, rz) \<Rightarrow>
        1 \<le> \<lfloor>vx p\<rfloor> \<and> \<lfloor>vx p\<rfloor> + 2 \<le> rx \<and>
        1 \<le> \<lfloor>vy p\<rfloor> \<and> \<lfloor>vy p\<rfloor> + 2 \<le> ry \<and>
        1 \<le> \<lfloor>vz p\<rfloor> \<and> \<lfloor>vz p\<rfloor> + 2 \<le> rz)"

text \<open>
  Modelled from the spec: \<^verbatim>\<open>parallel_for_each_active_particle\<close> is declared in the
  header of the class; it runs its argument on every particle of the scheduler's active
  list. A position outside the store is a dangling pointer.
\<close>

definition parallel_for_each_active_particle ::
    "(nat \<Rightarrow> MPM3D \<Rightarrow> MPM3D option) \<Rightarrow> MPM3D \<Rightarrow> MPM3D option" where
  "parallel_for_each_active_particle target st =
     for_each (\<lambda>i s. if i < length (particles s) then target i s else None)
       (active_particles st) st"

subsection \<open>Rasterize: particles to grid\<close>

text \<open>The body of the inner loop of \<^verbatim>\<open>MPM3D::rasterize\<close>, lines 133 to 138.\<close>

definition rasterize_node :: "MPM3Particle \<Rightarrow> Index3D \<Rightarrow> MPM3D \<Rightarrow> MPM3D option" where
  "rasterize_node p ind st = do {
     let d_pos = Vector_of_index ind - pos p;
     weight \<leftarrow> w_Vector3 d_pos;
     Some (st\<lparr>grid_mass := (grid_mass st)(ind := grid_mass st ind + weight * mass p),
              grid_velocity := (grid_velocity st)
                (ind := grid_velocity st ind +
                   vscale (weight * mass p) (v p + mat_vec (mscale 3 (apic_b p)) d_pos))\<rparr>)
   }"

definition rasterize_particle :: "MPM3Particle \<Rightarrow> MPM3D \<Rightarrow> MPM3D option" where
  "rasterize_particle p st =
     for_each (rasterize_node p) (get_bounded_rasterization_region (res st) (pos p)) st"

text \<open>Lines 129 to 140: the two resets and the scatter of every active particle.\<close>

definition rasterize_scatter :: "MPM3D \<Rightarrow> MPM3D option" where
  "rasterize_scatter st =
     parallel_for_each_active_particle (\<lambda>i s. rasterize_particle (particles s ! i) s)
       (st\<lparr>grid_velocity := (\<lambda>ind. 0), grid_mass := (\<lambda>ind. 0)\<rparr>)"

text \<open>Lines 142 to 147: one node of the normalisation.\<close>

definition normalize_node :: "Index3D \<Rightarrow> MPM3D \<Rightarrow> MPM3D option" where
  "normalize_node ind st =
     (if grid_mass st ind > 0 then do {
        inv_mass \<leftarrow> fdiv 1 (grid_mass st ind);
        Some (st\<lparr>grid_velocity := (grid_velocity st)
                 (ind := vscale inv_mass (grid_velocity st ind))\<rparr>)
      } else Some st)"

definition rasterize :: "MPM3D \<Rightarrow> MPM3D option" where
  "rasterize st = do {
     st1 \<leftarrow> rasterize_scatter st;
     for_each normalize_node (grid_region (res st1)) st1
   }"

subsection \<open>Resample: grid to particles\<close>

text \<open>The local variables of the body of \<^verbatim>\<open>MPM3D::resample\<close> that the loop updates.\<close>

record resample_locals =
  l_v :: Vector3
  l_bv :: Vector3
  l_cdg :: Matrix3
  l_b :: Matrix3
  l_count :: int

text \<open>Lines 164 to 177: one node of the gather.\<close>

definition resample_node ::
    "MPM3D \<Rightarrow> MPM3Particle \<Rightarrow> Index3D \<Rightarrow> resample_locals \<Rightarrow> resample_locals option" where
  "resample_node st p ind a = do {
     let d_pos = pos p - Vector_of_index ind;
     weight \<leftarrow> w_Vector3 d_pos;
     gw \<leftarrow> dw_Vector3 d_pos;
     let grid_vel = grid_velocity st ind;
     let aa = grid_vel;
     let bb = - d_pos;
     let out = Matrix3 (Vector3 (vx aa * vx bb) (vy aa * vx bb) (vz aa * vx bb))
                       (Vector3 (vx aa * vy bb) (vy aa * vy bb) (vz aa * vy bb))
                       (Vector3 (vx aa * vz bb) (vy aa * vz bb) (vz aa * vz bb));
     Some \<lparr>l_v = l_v a + vscale weight grid_vel,
           l_bv = l_bv a + vscale weight (grid_velocity_backup st ind),
           l_cdg = l_cdg a + outerProduct (grid_velocity st ind) gw,
           l_b = l_b a + mscale weight out,
           l_count = l_count a + 1\<rparr>
   }"

text \<open>Lines 156 to 190: the body run on one particle.\<close>

definition resample_particle :: "MPM3D \<Rightarrow> MPM3Particle \<Rightarrow> MPM3Particle option" where
  "resample_particle st p =
     (if state p \<noteq> UPDATING then Some p
      else do {
        let alpha_delta_t = (if apic st then 0 else 1);
        let delta_t = base_delta_t st * real_of_int (current_t_int st - last_update p);
        a \<leftarrow> for_each (resample_node st p)
               (get_bounded_rasterization_region (res st) (pos p))
               \<lparr>l_v = 0, l_bv = 0, l_cdg = Matrix_diag 0, l_b = Matrix_diag 0, l_count = 0\<rparr>;
        let b = (if l_count a \<noteq> 64 \<or> \<not> apic st then Matrix_diag 0 else l_b a);
        let damping = max 0 (1 - delta_t * affine_damping st);
        let cdg = Matrix_diag 1 + mscale delta_t (l_cdg a);
        let dg = mat_mul (mat_mul cdg (dg_e p)) (dg_p p);
        Some (p\<lparr>apic_b := mscale damping b,
                v := vscale (1 - alpha_delta_t) (l_v a)
                     + vscale alpha_delta_t (l_v a - l_bv a + v p),
                dg_e := mat_mul cdg (dg_e p),
                dg_cache := dg\<rparr>)
      })"

definition resample :: "MPM3D \<Rightarrow> MPM3D option" where
  "resample st =
     parallel_for_each_active_particle
       (\<lambda>i s. do {
          p' \<leftarrow> resample_particle s (particles s ! i);
          Some (s\<lparr>particles := (particles s)[i := p']\<rparr>)
        }) st"

text \<open>
  The velocities gathered from the grid: the sum of the grid velocities (and of the
  backed-up grid velocities) over the neighbourhood, each weighted by the kernel. On the
  nodes of the region the kernel is defined, and \<open>kernel_weight\<close> is its value.
\<close>

definition kernel_weight :: "Vector3 \<Rightarrow> real" where
  "kernel_weight d = (case w_Vector3 d of None \<Rightarrow> 0 | Some a \<Rightarrow> a)"

definition gathered_velocity :: "MPM3D \<Rightarrow> Vector3 \<Rightarrow> Vector3" where
  "gathered_velocity st x =
     sum_list (map (\<lambda>ind. vscale (kernel_weight (x - Vector_of_index ind)) (grid_velocity st ind))
       (get_bounded_rasterization_region (res st) x))"

definition gathered_velocity_backup :: "MPM3D \<Rightarrow> Vector3 \<Rightarrow> Vector3" where
  "gathered_velocity_backup st x =
     sum_list (map (\<lambda>ind. vscale (kernel_weight (x - Vector_of_index ind))
                     (grid_velocity_backup st ind))
       (get_bounded_rasterization_region (res st) x))"


text \<open>
  The affine term that the gather accumulates in \<^verbatim>\<open>b\<close>: the sum over the
  neighbourhood of the weighted outer products of the grid velocity and the offset of the
  node from the particle.
\<close>

definition gathered_affine :: "MPM3D \<Rightarrow> Vector3 \<Rightarrow> Matrix3" where
  "gathered_affine st x =
     sum_list (map (\<lambda>ind. mscale (kernel_weight (x - Vector_of_index ind))
                     (outerProduct (grid_velocity st ind) (Vector_of_index ind - x)))
       (get_bounded_rasterization_region (res st) x))"

subsection \<open>Single-precision rounding\<close>

text \<open>
  The rounding of IEEE 754 single precision in its normal range: a real number is replaced
  by the nearest number with a significand of 24 bits, and of two nearest ones by the one
  with the even significand. \<open>float32_exponent x\<close> is the exponent of the binade of \<open>x\<close>.
\<close>

definition round_ties_even :: "real \<Rightarrow> int" where
  "round_ties_even y =
     (let f = \<lfloor>y\<rfloor> in
      if y - real_of_int f < 1 / 2 then f
      else if 1 / 2 < y - real_of_int f then f + 1
      else if even f then f else f + 1)"

definition float32_exponent :: "real \<Rightarrow> int" where
  "float32_exponent x = \<lfloor>log 2 \<bar>x\<bar>\<rfloor>"

definition float32_round :: "real \<Rightarrow> real" where
  "float32_round x =
     (if x = 0 then 0
      else let e = float32_exponent x - 23
           in real_of_int (round_ties_even (x / 2 powi e)) * 2 powi e)"

subsection \<open>Position integration\<close>

text \<open>
  Lines 304 to 308 of \<^verbatim>\<open>MPM3D::substep\<close>. The constant \<^verbatim>\<open>eps\<close> of the math
  utilities is an argument. The upper bound of each clamp, \<^verbatim>\<open>res[i] - eps\<close>, is
  computed in single precision as in the source: the \<^verbatim>\<open>int\<close> is converted to
  \<^verbatim>\<open>float\<close> and the difference is rounded.
\<close>

definition integrate_particle :: "real \<Rightarrow> MPM3D \<Rightarrow> MPM3Particle \<Rightarrow> MPM3Particle" where
  "integrate_particle eps st p =
     (case res st of (rx, ry, rz) \<Rightarrow>
        let p1 = p\<lparr>pos := pos p +
                   vscale (real_of_int (current_t_int st - last_update p) * base_delta_t st) (v p)\<rparr>;
            p2 = p1\<lparr>last_update := current_t_int st\<rparr>;
            p3 = p2\<lparr>pos := Vector3
                   (clamp (vx (pos p2)) 0 (float32_round (float32_round (real_of_int rx) - eps)))
                   (vy (pos p2)) (vz (pos p2))\<rparr>;
            p4 = p3\<lparr>pos := Vector3 (vx (pos p3))
                   (clamp (vy (pos p3)) 0 (float32_round (float32_round (real_of_int ry) - eps)))
                   (vz (pos p3))\<rparr>;
            p5 = p4\<lparr>pos := Vector3 (vx (pos p4)) (vy (pos p4))
                   (clamp (vz (pos p4)) 0 (float32_round (float32_round (real_of_int rz) - eps)))\<rparr>
        in p5)"

text \<open>
  Lines 302 to 311: the loop of \<^verbatim>\<open>parallel_for_each_particle\<close>, which runs its body
  on every particle of the vector. The virtual method \<^verbatim>\<open>plasticity\<close> of the
  particle is an argument; it is called on the particle after the clamps.
\<close>

definition integrate_positions ::
    "(MPM3Particle \<Rightarrow> MPM3Particle) \<Rightarrow> real \<Rightarrow> MPM3D \<Rightarrow> MPM3D" where
  "integrate_positions plasticity eps st =
     st\<lparr>particles :=
          map (\<lambda>p. if state p = UPDATING then plasticity (integrate_particle eps st p) else p)
            (particles st)\<rparr>"

text \<open>A position inside the domain: every coordinate in \<open>[0, res)\<close>.\<close>

definition inside_domain :: "int \<times> int \<times> int \<Rightarrow> Vector3 \<Rightarrow> bool" where
  "inside_domain r p =
     (case r of (rx, ry, rz) \<Rightarrow>
        0 \<le> vx p \<and> vx p < real_of_int rx \<and>
        0 \<le> vy p \<and> vy p < real_of_int ry \<and>
        0 \<le> vz p \<and> vz p < real_of_int rz)"

subsection \<open>Boundary conditions on the grid\<close>

text \<open>
  The level set is consumed through its queries only; they are the fields of this record.
  \<open>friction\<close> is \<^verbatim>\<open>levelset.levelset0->friction\<close>.
\<close>

record DynamicLevelSet3D =
  sample :: "Vector3 \<Rightarrow> real \<Rightarrow> real"
  get_spatial_gradient :: "Vector3 \<Rightarrow> real \<Rightarrow> Vector3"
  get_temporal_derivative :: "Vector3 \<Rightarrow> real \<Rightarrow> real"
  friction :: real

definition node_position :: "Index3D \<Rightarrow> Vector3" where
  "node_position ind =
     (case ind of (i, j, k) \<Rightarrow>
        Vector3 (0.5 + real_of_int i) (0.5 + real_of_int j) (0.5 + real_of_int k))"

text \<open>Lines 219 to 242: the body of the loop of \<^verbatim>\<open>grid_apply_boundary_conditions\<close>.\<close>

definition boundary_node :: "DynamicLevelSet3D \<Rightarrow> real \<Rightarrow> Index3D \<Rightarrow> MPM3D \<Rightarrow> MPM3D" where
  "boundary_node levelset t ind st =
     (let node_pos = node_position ind;
          phi = sample levelset node_pos t
      in if 1 < phi \<or> phi < - 3 then st
         else
           let n = get_spatial_gradient levelset node_pos t;
               boundary_velocity = vscale (get_temporal_derivative levelset node_pos t) n;
               v0 = grid_velocity st ind - boundary_velocity;
               v1 = (if phi > 0 then
                       let pressure = max (- dot v0 n) 0;
                           mu = friction levelset
                       in if mu < 0 then Vector3 0 0 0
                          else
                            let t0 = v0 - vscale (dot v0 n) n;
                                t1 = (if vlength t0 > 1 / 1000000 then normalize_Vector3 t0 else t0);
                                fr = - clamp (dot t1 v0) (- mu * pressure) (mu * pressure)
                            in v0 + vscale pressure n + vscale fr t1
                     else if phi < 0 then vscale (max 0 (dot v0 n)) n
                     else v0)
           in st\<lparr>grid_velocity := (grid_velocity st)(ind := v1 + boundary_velocity)\<rparr>)"

definition grid_apply_boundary_conditions :: "DynamicLevelSet3D \<Rightarrow> real \<Rightarrow> MPM3D \<Rightarrow> MPM3D" where
  "grid_apply_boundary_conditions levelset t st =
     fold (boundary_node levelset t) (active_grid_points st) st"

text \<open>The velocity of the boundary at a node, as line 223 computes it.\<close>

definition boundary_velocity_at :: "DynamicLevelSet3D \<Rightarrow> real \<Rightarrow> Index3D \<Rightarrow> Vector3" where
  "boundary_velocity_at levelset t ind =
     vscale (get_temporal_derivative levelset (node_position ind) t)
       (get_spatial_gradient levelset (node_position ind) t)"

subsection \<open>Tick alignment of the asynchronous scheduler step\<close>

definition int64_ok :: "int \<Rightarrow> bool" where
  "int64_ok a = (- (2 ^ 63) \<le> a \<and> a < 2 ^ 63)"

text \<open>
  Lines 271 to 276 of \<^verbatim>\<open>MPM3D::substep\<close>. The two operands of
  \<^verbatim>\<open>std::min\<close> are the results of \<^verbatim>\<open>get_largest_pot\<close> and of
  \<^verbatim>\<open>scheduler.update_max_dt_int\<close>, both outside this file, and are taken as
  arguments. The C++ operator \<^verbatim>\<open>%\<close> truncates towards zero (\<open>smod\<close>); a zero
  divisor and a result outside \<^verbatim>\<open>int64\<close> are undefined behaviour.
  The argument \<open>tick\<close> is \<^verbatim>\<open>current_t_int\<close> before the step; the
  result is the pair of \<^verbatim>\<open>t_int_increment\<close> and the new
  \<^verbatim>\<open>current_t_int\<close>.
\<close>

definition async_tick_advance :: "int \<Rightarrow> int \<Rightarrow> int \<Rightarrow> (int \<times> int) option" where
  "async_tick_advance tick largest_pot max_dt_int =
     (let original_t_int_increment = min largest_pot max_dt_int in
      if original_t_int_increment = 0 then None
      else if tick = - (2 ^ 63) \<and> original_t_int_increment = - 1 then None
      else
        let t_int_increment = original_t_int_increment - tick smod original_t_int_increment;
            new_t_int = tick + t_int_increment
        in if int64_ok t_int_increment \<and> int64_ok new_t_int
           then Some (t_int_increment, new_t_int) else None)"

subsection \<open>Notions used in the proofs\<close>

text \<open>The sum of the masses of all the nodes of the grid.\<close>

definition total_grid_mass :: "MPM3D \<Rightarrow> real" where
  "total_grid_mass st = sum_list (map (grid_mass st) (grid_region (res st)))"

text \<open>What the grid loops leave alone: the resolution, the particles and the active list.\<close>

definition same_particles :: "MPM3D \<Rightarrow> MPM3D \<Rightarrow> bool" where
  "same_particles st s =
     (res s = res st \<and> particles s = particles st \<and> active_particles s = active_particles st)"

subsection \<open>Example states\<close>

text \<open>
  A particle on the corner node of a grid with a single node, in a state with a second
  particle that is not updating; a level set with a sticky surface at distance \<open>1/2\<close>; a
  line of four nodes with a particle between the first two; a grid that holds the whole
  neighbourhood of two particles; two particles of opposite mass on one node; a grid
  whose velocity grows along the first axis, around a particle with its whole
  neighbourhood; and a particle half a cell from the upper wall of a grid of resolution
  64, moving out by one cell per tick.
\<close>

definition example_particle :: MPM3Particle where
  "example_particle =
     \<lparr>pos = Vector3 0 0 0, v = Vector3 1 2 3, mass = 1, apic_b = Matrix_diag 1,
      dg_e = Matrix_diag 1, dg_p = Matrix_diag 1, dg_cache = Matrix_diag 1,
      state = UPDATING, last_update = 0\<rparr>"

definition example_state :: "bool \<Rightarrow> MPM3D" where
  "example_state a =
     \<lparr>res = (0, 0, 0), apic = a, base_delta_t = 1 / 1000000, affine_damping = 0,
      current_t_int = 1,
      particles = [example_particle, example_particle\<lparr>state := BUFFER\<rparr>],
      active_particles = [0, 1], active_grid_points = [(0, 0, 0)],
      grid_velocity = (\<lambda>ind. Vector3 1 (- 2) 0), grid_mass = (\<lambda>ind. 1),
      grid_velocity_backup = (\<lambda>ind. Vector3 0 1 0)\<rparr>"

definition example_levelset :: DynamicLevelSet3D where
  "example_levelset =
     \<lparr>sample = (\<lambda>x t. 1 / 2), get_spatial_gradient = (\<lambda>x t. Vector3 0 1 0),
      get_temporal_derivative = (\<lambda>x t. 0), friction = - 1\<rparr>"


definition example_interior_state :: MPM3D where
  "example_interior_state =
     \<lparr>res = (3, 3, 3), apic = True, base_delta_t = 1 / 1000000, affine_damping = 0,
      current_t_int = 1,
      particles = [example_particle\<lparr>pos := Vector3 (3 / 2) (3 / 2) (3 / 2), mass := 2\<rparr>,
                   example_particle\<lparr>pos := Vector3 (5 / 4) 1 (7 / 4)\<rparr>],
      active_particles = [0, 1], active_grid_points = [],
      grid_velocity = (\<lambda>ind. Vector3 7 7 7), grid_mass = (\<lambda>ind. 5),
      grid_velocity_backup = (\<lambda>ind. 0)\<rparr>"


definition example_shear_state :: "bool \<Rightarrow> MPM3D" where
  "example_shear_state a =
     \<lparr>res = (3, 3, 3), apic = a, base_delta_t = 1 / 1000000, affine_damping = 0,
      current_t_int = 1,
      particles = [example_particle\<lparr>pos := Vector3 (3 / 2) (3 / 2) (3 / 2)\<rparr>],
      active_particles = [0], active_grid_points = [],
      grid_velocity = (\<lambda>ind. Vector3 (real_of_int (fst ind)) 0 0), grid_mass = (\<lambda>ind. 1),
      grid_velocity_backup = (\<lambda>ind. 0)\<rparr>"

definition example_wall_state :: MPM3D where
  "example_wall_state =
     \<lparr>res = (64, 64, 64), apic = True, base_delta_t = 1 / 1048576, affine_damping = 0,
      current_t_int = 1,
      particles = [example_particle\<lparr>pos := Vector3 (127 / 2) 1 1, v := Vector3 1048576 0 0\<rparr>],
      active_particles = [0], active_grid_points = [],
      grid_velocity = (\<lambda>ind. 0), grid_mass = (\<lambda>ind. 0),
      grid_velocity_backup = (\<lambda>ind. 0)\<rparr>"

section \<open>Properties\<close>

subsection \<open>The kernel\<close>

lemma w_Some:
  "\<bar>x\<bar> \<le> 2 \<Longrightarrow> w x = Some (w_unchecked x)"
  by (simp add: w_def w_unchecked_def Let_def)

lemma w_None:
  "2 < \<bar>x\<bar> \<Longrightarrow> w x = None"
  by (simp add: w_def Let_def)

text \<open>
  C2, as stated, at the offset \<open>1/2\<close>: the node \<open>i = -2\<close> is at distance \<open>5/2\<close>, where
  the assertion of \<open>w\<close> fails, so the sum over the five nodes \<open>-2 .. 2\<close> has no value;
  with assertions compiled out the five values sum to \<open>47/48\<close>, not to one.
\<close>

theorem stencil_five_nodes_counterexample:
  "(0::real) \<le> 1 / 2 \<and> (1 / 2 :: real) < 1 \<and>
   stencil_sum [- 2, - 1, 0, 1, 2] (1 / 2) = None \<and>
   stencil_sum [- 2, - 1, 0, 1, 2] (1 / 2) \<noteq> Some 1 \<and>
   stencil_sum_unchecked [- 2, - 1, 0, 1, 2] (1 / 2) = 47 / 48"
  by (simp add: w_def w_unchecked_def stencil_sum_unchecked_def Let_def)

text \<open>
  C2, amended: for every fractional offset \<open>f\<close> in \<open>[0, 1)\<close> the weights \<open>w (i - f)\<close> of
  the four nodes \<open>i = -1, 0, 1, 2\<close>, the ones within distance 2, are all defined and sum
  to one.
\<close>

theorem stencil_partition_of_unity:
  "0 \<le> f \<Longrightarrow> f < 1 \<Longrightarrow> stencil_sum [- 1, 0, 1, 2] f = Some 1"
  by (simp add: w_def Let_def abs_if) (simp add: field_simps)

theorem stencil_partition_of_unity_witness:
  "(0::real) \<le> 1 / 2 \<and> (1 / 2 :: real) < 1 \<and> stencil_sum [- 1, 0, 1, 2] (1 / 2) = Some 1"
  using stencil_partition_of_unity [of "1 / 2"] by simp

lemmas Vector3_defs = zero_Vector3_def plus_Vector3_def uminus_Vector3_def minus_Vector3_def
  vscale_def

lemma vscale_simps [simp]: "vscale 0 a = 0" "vscale 1 a = a" "vscale s 0 = 0"
  by (simp_all add: Vector3_defs)

lemma Matrix_diag_0 [simp]: "Matrix_diag 0 = 0"
  by (simp add: Matrix_diag_def zero_Matrix3_def zero_Vector3_def)

lemma mscale_0 [simp]: "mscale s 0 = 0"
  by (simp add: mscale_def zero_Matrix3_def)

lemma dw_Some: "\<bar>x\<bar> \<le> 2 \<Longrightarrow> \<exists>d. dw x = Some d"
  by (simp add: dw_def Let_def abs_if split: if_splits)

lemma w_Vector3_Some:
  "\<bar>vx a\<bar> \<le> 2 \<Longrightarrow> \<bar>vy a\<bar> \<le> 2 \<Longrightarrow> \<bar>vz a\<bar> \<le> 2 \<Longrightarrow>
   w_Vector3 a = Some (w_unchecked (vx a) * w_unchecked (vy a) * w_unchecked (vz a))"
  by (simp add: w_Vector3_def w_Some)

lemma dw_Vector3_Some:
  "\<bar>vx a\<bar> \<le> 2 \<Longrightarrow> \<bar>vy a\<bar> \<le> 2 \<Longrightarrow> \<bar>vz a\<bar> \<le> 2 \<Longrightarrow> \<exists>g. dw_Vector3 a = Some g"
  using dw_Some [of "vx a"] dw_Some [of "vy a"] dw_Some [of "vz a"]
  by (auto simp add: dw_Vector3_def w_Some)

subsection \<open>Tick alignment\<close>

text \<open>
  C3: in asynchronous mode, when the chosen increment \<open>P\<close> (the smaller of the two bounds)
  is a power of two, the tick counter is not negative and the step does not leave the
  range of \<^verbatim>\<open>int64\<close>, the tick increment is \<open>P - tick mod P\<close> and the new tick is a
  multiple of \<open>P\<close>.
\<close>

theorem async_tick_alignment:
  assumes "0 \<le> c" and "min lp md = 2 ^ k" and "c + 2 ^ k < 2 ^ 63"
  shows "async_tick_advance c lp md = Some (2 ^ k - c mod 2 ^ k, c + (2 ^ k - c mod 2 ^ k))
       \<and> 2 ^ k dvd c + (2 ^ k - c mod 2 ^ k)"
proof -
  define P :: int where "P = 2 ^ k"
  have P: "0 < P" by (simp add: P_def)
  have sm: "c smod P = c mod P"
    using assms(1) P by (simp add: smod_int_alt_def sgn_if abs_if)
  have m0: "0 \<le> c mod P" and m1: "c mod P < P" using P by simp_all
  have d: "P dvd (c + (P - c mod P))"
  proof -
    have "c + (P - c mod P) = P * (c div P + 1)"
      by (simp add: algebra_simps minus_mod_eq_mult_div [symmetric])
    then show ?thesis by simp
  qed
  have b: "c + P < 9223372036854775808" using assms(3) by (simp add: P_def)
  have ok: "int64_ok (P - c mod P)" "int64_ok (c + (P - c mod P))"
  proof -
    define r where "r = c mod P"
    have "0 \<le> r" "r < P" using m0 m1 by (simp_all add: r_def)
    then have "int64_ok (P - r)" "int64_ok (c + (P - r))"
      unfolding int64_ok_def using assms(1) P b by auto
    then show "int64_ok (P - c mod P)" "int64_ok (c + (P - c mod P))"
      by (simp_all add: r_def)
  qed
  have "async_tick_advance c lp md = Some (P - c mod P, c + (P - c mod P))"
    using assms(2) P sm ok
    by (simp add: async_tick_advance_def Let_def P_def [symmetric])
  with d show ?thesis by (simp add: P_def)
qed

text \<open>The instance of the spec: tick 5, chosen increment 4, increment 3, new tick 8.\<close>

theorem async_tick_alignment_witness:
  "(0::int) \<le> 5 \<and> min 4 16 = (2::int) ^ 2 \<and> (5::int) + 2 ^ 2 < 2 ^ 63 \<and>
   async_tick_advance 5 4 16 = Some (3, 8) \<and> (4::int) dvd 8"
  using async_tick_alignment [of 5 4 16 2] by simp

subsection \<open>Regions of the grid\<close>

lemma floor_window:
  fixes x :: real and i :: int
  assumes "\<lfloor>x\<rfloor> - 1 \<le> i" "i \<le> \<lfloor>x\<rfloor> + 2"
  shows "\<bar>x - real_of_int i\<bar> \<le> 2" "\<bar>real_of_int i - x\<bar> \<le> 2"
proof -
  have "real_of_int \<lfloor>x\<rfloor> \<le> x" "x < real_of_int \<lfloor>x\<rfloor> + 1" by linarith+
  moreover have "real_of_int \<lfloor>x\<rfloor> - 1 \<le> real_of_int i" "real_of_int i \<le> real_of_int \<lfloor>x\<rfloor> + 2"
    using assms by linarith+
  ultimately show "\<bar>x - real_of_int i\<bar> \<le> 2" "\<bar>real_of_int i - x\<bar> \<le> 2" by linarith+
qed

lemma box_mem:
  "(i, j, k) \<in> set [(a, b, c). a \<leftarrow> xs, b \<leftarrow> ys, c \<leftarrow> zs]
     \<longleftrightarrow> i \<in> set xs \<and> j \<in> set ys \<and> k \<in> set zs"
  by auto

lemma region_mem:
  "(i, j, k) \<in> set (get_bounded_rasterization_region (rx, ry, rz) p) \<longleftrightarrow>
     max 0 (\<lfloor>vx p\<rfloor> - 1) \<le> i \<and> i \<le> min rx (\<lfloor>vx p\<rfloor> + 2) \<and>
     max 0 (\<lfloor>vy p\<rfloor> - 1) \<le> j \<and> j \<le> min ry (\<lfloor>vy p\<rfloor> + 2) \<and>
     max 0 (\<lfloor>vz p\<rfloor> - 1) \<le> k \<and> k \<le> min rz (\<lfloor>vz p\<rfloor> + 2)"
  by (simp only: get_bounded_rasterization_region_def Let_def prod.case box_mem) auto

lemma grid_region_mem:
  "(i, j, k) \<in> set (grid_region (rx, ry, rz)) \<longleftrightarrow>
     0 \<le> i \<and> i \<le> rx \<and> 0 \<le> j \<and> j \<le> ry \<and> 0 \<le> k \<and> k \<le> rz"
  by (simp only: grid_region_def prod.case box_mem) auto

lemma region_subset_grid:
  "set (get_bounded_rasterization_region r p) \<subseteq> set (grid_region r)"
  by (cases r) (auto simp add: region_mem grid_region_mem)

lemma region_offsets:
  assumes "ind \<in> set (get_bounded_rasterization_region r p)"
  shows "\<bar>vx (p - Vector_of_index ind)\<bar> \<le> 2 \<and> \<bar>vy (p - Vector_of_index ind)\<bar> \<le> 2
       \<and> \<bar>vz (p - Vector_of_index ind)\<bar> \<le> 2"
    and "\<bar>vx (Vector_of_index ind - p)\<bar> \<le> 2 \<and> \<bar>vy (Vector_of_index ind - p)\<bar> \<le> 2
       \<and> \<bar>vz (Vector_of_index ind - p)\<bar> \<le> 2"
proof -
  obtain i j k where ind: "ind = (i, j, k)" by (cases ind) auto
  obtain rx ry rz where r: "r = (rx, ry, rz)" by (cases r) auto
  from assms have m: "\<lfloor>vx p\<rfloor> - 1 \<le> i" "i \<le> \<lfloor>vx p\<rfloor> + 2"
     "\<lfloor>vy p\<rfloor> - 1 \<le> j" "j \<le> \<lfloor>vy p\<rfloor> + 2" "\<lfloor>vz p\<rfloor> - 1 \<le> k" "k \<le> \<lfloor>vz p\<rfloor> + 2"
    unfolding ind r region_mem by simp_all
  show "\<bar>vx (p - Vector_of_index ind)\<bar> \<le> 2 \<and> \<bar>vy (p - Vector_of_index ind)\<bar> \<le> 2
       \<and> \<bar>vz (p - Vector_of_index ind)\<bar> \<le> 2"
    using floor_window(1) [OF m(1,2)] floor_window(1) [OF m(3,4)] floor_window(1) [OF m(5,6)]
    by (simp add: ind Vector_of_index_def minus_Vector3_def)
  show "\<bar>vx (Vector_of_index ind - p)\<bar> \<le> 2 \<and> \<bar>vy (Vector_of_index ind - p)\<bar> \<le> 2
       \<and> \<bar>vz (Vector_of_index ind - p)\<bar> \<le> 2"
    using floor_window(2) [OF m(1,2)] floor_window(2) [OF m(3,4)] floor_window(2) [OF m(5,6)]
    by (simp add: ind Vector_of_index_def minus_Vector3_def)
qed

lemma kernel_weight_region:
  assumes "ind \<in> set (get_bounded_rasterization_region r p)"
  shows "w_Vector3 (p - Vector_of_index ind) = Some (kernel_weight (p - Vector_of_index ind))"
    and "w_Vector3 (Vector_of_index ind - p) = Some (kernel_weight (Vector_of_index ind - p))"
  using region_offsets [OF assms] by (simp_all add: kernel_weight_def w_Vector3_Some)

lemma box_product:
  "[(a, b, c). a \<leftarrow> xs, b \<leftarrow> ys, c \<leftarrow> zs] = List.product xs (List.product ys zs)"
  by (induction xs) (simp_all add: List.product_concat_map map_concat comp_def)

lemma distinct_box:
  "distinct xs \<Longrightarrow> distinct ys \<Longrightarrow> distinct zs \<Longrightarrow>
   distinct [(a, b, c). a \<leftarrow> xs, b \<leftarrow> ys, c \<leftarrow> zs]"
  by (simp only: box_product distinct_product)

lemma distinct_grid_region: "distinct (grid_region r)"
  by (cases r) (simp only: grid_region_def prod.case distinct_box distinct_upto)

lemma upto_four: "[a - 1..a + 2] = [a - 1, a, a + 1, a + (2::int)]"
proof -
  have 1: "[a - 1..a + 2] = (a - 1) # [a..a + 2]"
    using upto_rec1 [of "a - 1" "a + 2"] by simp
  have 2: "[a..a + 2] = a # [a + 1..a + 2]"
    using upto_rec1 [of a "a + 2"] by simp
  have 3: "[a + 1..a + 2] = (a + 1) # [a + 2..a + 2]"
    using upto_rec1 [of "a + 1" "a + 2"] by (simp add: add.commute)
  have 4: "[a + 2..a + 2] = [a + 2]" by (rule upto_single)
  show ?thesis by (simp only: 1 2 3 4)
qed

lemma region_full:
  assumes "neighbourhood_inside_grid r p"
  shows "get_bounded_rasterization_region r p =
     [(i, j, k). i \<leftarrow> [\<lfloor>vx p\<rfloor> - 1..\<lfloor>vx p\<rfloor> + 2], j \<leftarrow> [\<lfloor>vy p\<rfloor> - 1..\<lfloor>vy p\<rfloor> + 2],
                 k \<leftarrow> [\<lfloor>vz p\<rfloor> - 1..\<lfloor>vz p\<rfloor> + 2]]"
proof -
  obtain rx ry rz where r: "r = (rx, ry, rz)" by (cases r) auto
  from assms have
    "max 0 (\<lfloor>vx p\<rfloor> - 1) = \<lfloor>vx p\<rfloor> - 1" "min rx (\<lfloor>vx p\<rfloor> + 2) = \<lfloor>vx p\<rfloor> + 2"
    "max 0 (\<lfloor>vy p\<rfloor> - 1) = \<lfloor>vy p\<rfloor> - 1" "min ry (\<lfloor>vy p\<rfloor> + 2) = \<lfloor>vy p\<rfloor> + 2"
    "max 0 (\<lfloor>vz p\<rfloor> - 1) = \<lfloor>vz p\<rfloor> - 1" "min rz (\<lfloor>vz p\<rfloor> + 2) = \<lfloor>vz p\<rfloor> + 2"
    by (simp_all add: neighbourhood_inside_grid_def r)
  then show ?thesis
    by (simp only: get_bounded_rasterization_region_def r prod.case Let_def)
qed

lemma length_region_full:
  assumes "neighbourhood_inside_grid r p"
  shows "length (get_bounded_rasterization_region r p) = 64"
  unfolding region_full [OF assms] by (simp add: upto_four length_concat comp_def)

lemma example_region [simp]:
  "get_bounded_rasterization_region (0, 0, 0) (Vector3 0 0 0) = [(0, 0, 0)]"
  by (simp add: get_bounded_rasterization_region_def Let_def)

lemma example_kernel_weight [simp]:
  "kernel_weight (Vector3 0 0 0) = 8 / 27"
  by (simp add: kernel_weight_def w_Vector3_def w_def Let_def)

subsection \<open>Loops\<close>

text \<open>
  A loop whose body keeps an invariant \<open>I\<close> and adds \<open>c x\<close> to a measure \<open>m\<close> of the
  state does not fail, keeps the invariant and adds the sum of the \<open>c x\<close>.
\<close>

lemma for_each_accum:
  fixes m :: "'s \<Rightarrow> real"
  assumes "\<And>x s. x \<in> set xs \<Longrightarrow> I s \<Longrightarrow> \<exists>s'. f x s = Some s' \<and> I s' \<and> m s' = m s + c x"
    and "I s"
  shows "\<exists>s'. for_each f xs s = Some s' \<and> I s' \<and> m s' = m s + sum_list (map c xs)"
  using assms
proof (induction xs arbitrary: s)
  case Nil
  then show ?case by simp
next
  case (Cons x xs)
  from Cons.prems(1) [of x s] Cons.prems(2)
  obtain s1 where s1: "f x s = Some s1" "I s1" "m s1 = m s + c x" by auto
  have "\<exists>s'. for_each f xs s1 = Some s' \<and> I s' \<and> m s' = m s1 + sum_list (map c xs)"
    by (rule Cons.IH) (use Cons.prems(1) s1(2) in auto)
  then show ?case using s1 by (auto simp add: add.assoc)
qed

lemma map_fun_upd_other:
  "x \<notin> set G \<Longrightarrow> map (g(x := b)) G = map g G"
  by (induction G) auto

lemma sum_list_fun_upd:
  fixes g :: "'a \<Rightarrow> real"
  assumes "distinct G" "x \<in> set G"
  shows "sum_list (map (g(x := g x + a)) G) = sum_list (map g G) + a"
  using assms
proof (induction G)
  case Nil
  then show ?case by simp
next
  case (Cons y G)
  show ?case
  proof (cases "y = x")
    case True
    then have "x \<notin> set G" using Cons.prems by simp
    then have eq: "map (g(x := g x + a)) G = map g G" by (rule map_fun_upd_other)
    show ?thesis unfolding list.map sum_list.Cons eq using True by simp
  next
    case False
    then show ?thesis using Cons by simp
  qed
qed

lemma sum_list_box:
  fixes f g h :: "int \<Rightarrow> real"
  shows "sum_list (map (\<lambda>(i, j, k). f i * (g j * h k)) [(a, b, c). a \<leftarrow> xs, b \<leftarrow> ys, c \<leftarrow> zs])
       = sum_list (map f xs) * (sum_list (map g ys) * sum_list (map h zs))"
proof -
  have mid: "sum_list (map (\<lambda>(i, j, k). f i * (g j * h k))
        (concat (map (\<lambda>b. map (\<lambda>c. (a, b, c)) zs) ys)))
      = f a * (sum_list (map g ys) * sum_list (map h zs))" for a
    by (induction ys) (simp_all add: comp_def sum_list_const_mult ring_distribs)
  show ?thesis
    by (induction xs) (simp_all add: mid ring_distribs)
qed

subsection \<open>Boundary conditions\<close>

lemma boundary_node_other:
  "ind' \<noteq> ind \<Longrightarrow> grid_velocity (boundary_node levelset t ind st) ind' = grid_velocity st ind'"
  by (simp add: boundary_node_def Let_def)

lemma boundary_fold_other:
  "ind' \<notin> set L \<Longrightarrow>
   grid_velocity (fold (boundary_node levelset t) L st) ind' = grid_velocity st ind'"
  by (induction L arbitrary: st) (auto simp add: boundary_node_other)

lemma boundary_node_sticky:
  assumes "0 < sample levelset (node_position ind) t"
    and "sample levelset (node_position ind) t \<le> 1"
    and "friction levelset < 0"
  shows "grid_velocity (boundary_node levelset t ind st) ind = boundary_velocity_at levelset t ind"
  using assms
  by (simp add: boundary_node_def Let_def boundary_velocity_at_def Vector3_defs)

lemma boundary_fold_sticky:
  assumes "0 < sample levelset (node_position ind) t"
    and "sample levelset (node_position ind) t \<le> 1"
    and "friction levelset < 0"
    and "ind \<in> set L"
  shows "grid_velocity (fold (boundary_node levelset t) L st) ind
       = boundary_velocity_at levelset t ind"
  using assms(4)
proof (induction L arbitrary: st)
  case Nil
  then show ?case by simp
next
  case (Cons x L)
  show ?case
  proof (cases "ind \<in> set L")
    case True
    then show ?thesis using Cons.IH by simp
  next
    case False
    then have "x = ind" using Cons.prems by simp
    then show ?thesis
      using False boundary_node_sticky [OF assms(1-3)] by (simp add: boundary_fold_other)
  qed
qed

text \<open>
  C4: for an active grid node whose signed distance \<open>phi\<close> lies in \<open>(0, 1]\<close>, under a
  negative friction coefficient (sticky), the grid velocity that
  \<^verbatim>\<open>grid_apply_boundary_conditions\<close> leaves at the node is the velocity of the
  boundary there.
\<close>

theorem sticky_boundary_velocity:
  assumes "ind \<in> set (active_grid_points st)"
    and "0 < sample levelset (node_position ind) t"
    and "sample levelset (node_position ind) t \<le> 1"
    and "friction levelset < 0"
  shows "grid_velocity (grid_apply_boundary_conditions levelset t st) ind
       = boundary_velocity_at levelset t ind"
  using boundary_fold_sticky [OF assms(2-4) assms(1)]
  by (simp add: grid_apply_boundary_conditions_def)

text \<open>
  The instance of the spec: \<open>phi = 1/2\<close>, normal \<open>(0, 1, 0)\<close>, a boundary at rest and the
  grid velocity \<open>(1, -2, 0)\<close> give \<open>(0, 0, 0)\<close>.
\<close>

theorem sticky_boundary_velocity_witness:
  "(0, 0, 0) \<in> set (active_grid_points (example_state True))
   \<and> sample example_levelset (node_position (0, 0, 0)) 0 = 1 / 2
   \<and> get_spatial_gradient example_levelset (node_position (0, 0, 0)) 0 = Vector3 0 1 0
   \<and> boundary_velocity_at example_levelset 0 (0, 0, 0) = Vector3 0 0 0
   \<and> friction example_levelset < 0
   \<and> grid_velocity (example_state True) (0, 0, 0) = Vector3 1 (- 2) 0
   \<and> grid_velocity (grid_apply_boundary_conditions example_levelset 0 (example_state True)) (0, 0, 0)
       = Vector3 0 0 0"
  using sticky_boundary_velocity [of "(0, 0, 0)" "example_state True" example_levelset 0]
  by (simp add: example_state_def example_levelset_def boundary_velocity_at_def Vector3_defs)

subsection \<open>Resample\<close>

lemma resample_gather:
  assumes "set L \<subseteq> set (get_bounded_rasterization_region r (pos p))"
  shows "\<exists>a'. for_each (resample_node st p) L a = Some a'
     \<and> l_v a' = l_v a + sum_list (map (\<lambda>ind. vscale (kernel_weight (pos p - Vector_of_index ind))
                                        (grid_velocity st ind)) L)
     \<and> l_bv a' = l_bv a + sum_list (map (\<lambda>ind. vscale (kernel_weight (pos p - Vector_of_index ind))
                                        (grid_velocity_backup st ind)) L)
     \<and> l_count a' = l_count a + int (length L)"
  using assms
proof (induction L arbitrary: a)
  case Nil
  then show ?case by simp
next
  case (Cons ind L)
  from Cons.prems have mem: "ind \<in> set (get_bounded_rasterization_region r (pos p))"
    and sub: "set L \<subseteq> set (get_bounded_rasterization_region r (pos p))" by simp_all
  obtain g where g: "dw_Vector3 (pos p - Vector_of_index ind) = Some g"
    using region_offsets(1) [OF mem] dw_Vector3_Some by blast
  obtain a1 where a1: "resample_node st p ind a = Some a1"
    and v1: "l_v a1 = l_v a + vscale (kernel_weight (pos p - Vector_of_index ind)) (grid_velocity st ind)"
    and bv1: "l_bv a1 = l_bv a + vscale (kernel_weight (pos p - Vector_of_index ind)) (grid_velocity_backup st ind)"
    and cnt1: "l_count a1 = l_count a + 1"
    using g kernel_weight_region(1) [OF mem] by (simp add: resample_node_def Let_def)
  from Cons.IH [OF sub, of a1] obtain a' where
    "for_each (resample_node st p) L a1 = Some a'"
    "l_v a' = l_v a1 + sum_list (map (\<lambda>ind. vscale (kernel_weight (pos p - Vector_of_index ind))
                                        (grid_velocity st ind)) L)"
    "l_bv a' = l_bv a1 + sum_list (map (\<lambda>ind. vscale (kernel_weight (pos p - Vector_of_index ind))
                                        (grid_velocity_backup st ind)) L)"
    "l_count a' = l_count a1 + int (length L)" by blast
  then show ?case using a1 v1 bv1 cnt1 by (simp add: add.assoc)
qed

lemma resample_particle_UPDATING:
  assumes "state p = UPDATING"
  shows "\<exists>p'. resample_particle st p = Some p'
     \<and> v p' = (if apic st then gathered_velocity st (pos p)
               else v p + (gathered_velocity st (pos p) - gathered_velocity_backup st (pos p)))
     \<and> (int (length (get_bounded_rasterization_region (res st) (pos p))) \<noteq> 64 \<or> \<not> apic st
          \<longrightarrow> apic_b p' = 0)
     \<and> pos p' = pos p \<and> state p' = state p"
proof -
  let ?a0 = "\<lparr>l_v = 0, l_bv = 0, l_cdg = Matrix_diag 0, l_b = Matrix_diag 0, l_count = 0\<rparr>"
  from resample_gather [of "get_bounded_rasterization_region (res st) (pos p)" "res st" p st ?a0]
  obtain a' where a': "for_each (resample_node st p)
        (get_bounded_rasterization_region (res st) (pos p)) ?a0 = Some a'"
    and v': "l_v a' = gathered_velocity st (pos p)"
    and bv': "l_bv a' = gathered_velocity_backup st (pos p)"
    and c': "l_count a' = int (length (get_bounded_rasterization_region (res st) (pos p)))"
    by (auto simp add: gathered_velocity_def gathered_velocity_backup_def)
  show ?thesis
    using assms a' v' bv' c'
    by (simp add: resample_particle_def Let_def del: Matrix_diag_0) (simp add: algebra_simps)
qed

lemma resample_particle_not_UPDATING:
  "state p \<noteq> UPDATING \<Longrightarrow> resample_particle st p = Some p"
  by (simp add: resample_particle_def)

lemma resample_particle_total:
  "\<exists>p'. resample_particle st p = Some p' \<and> pos p' = pos p \<and> state p' = state p"
proof (cases "state p = UPDATING")
  case True
  from resample_particle_UPDATING [OF this, of st] show ?thesis by blast
next
  case False
  then show ?thesis by (simp add: resample_particle_not_UPDATING)
qed

lemma resample_particle_particles_update [simp]:
  "resample_particle (st\<lparr>particles := ps\<rparr>) p = resample_particle st p"
  by (simp add: resample_particle_def resample_node_def [abs_def])

text \<open>
  The loop of resample over the active list: it does not fail; it keeps the position and
  the state of every particle; it leaves alone the particles that are not listed and the
  ones that are not updating; and a listed particle is the result of the body on a particle
  with the same position and state (on the particle itself when the list has no
  repetition).
\<close>

lemma resample_loop:
  assumes "\<forall>i\<in>set L. i < length (particles s)"
  shows "\<exists>ps'. for_each (\<lambda>i s. if i < length (particles s) then do {
          p' \<leftarrow> resample_particle s (particles s ! i);
          Some (s\<lparr>particles := (particles s)[i := p']\<rparr>)
        } else None) L s = Some (s\<lparr>particles := ps'\<rparr>)
      \<and> length ps' = length (particles s)
      \<and> (\<forall>j<length ps'.
            pos (ps' ! j) = pos (particles s ! j) \<and> state (ps' ! j) = state (particles s ! j)
          \<and> (j \<notin> set L \<longrightarrow> ps' ! j = particles s ! j)
          \<and> (state (particles s ! j) \<noteq> UPDATING \<longrightarrow> ps' ! j = particles s ! j)
          \<and> (j \<in> set L \<longrightarrow> (\<exists>q. pos q = pos (particles s ! j) \<and> state q = state (particles s ! j)
                   \<and> (distinct L \<longrightarrow> q = particles s ! j)
                   \<and> resample_particle s q = Some (ps' ! j))))"
  using assms
proof (induction L arbitrary: s)
  case Nil
  show ?case by (rule exI [of _ "particles s"]) simp
next
  case (Cons i L)
  let ?body = "\<lambda>i s. if i < length (particles s) then do {
          p' \<leftarrow> resample_particle s (particles s ! i);
          Some (s\<lparr>particles := (particles s)[i := p']\<rparr>)
        } else None"
  let ?ps = "particles s"
  from Cons.prems have i: "i < length ?ps" and L: "\<forall>j\<in>set L. j < length ?ps" by simp_all
  obtain p' where p': "resample_particle s (?ps ! i) = Some p'"
    and pp: "pos p' = pos (?ps ! i)" and sp: "state p' = state (?ps ! i)"
    using resample_particle_total by blast
  have keep: "state (?ps ! i) \<noteq> UPDATING \<Longrightarrow> p' = ?ps ! i"
    using p' by (simp add: resample_particle_not_UPDATING)
  define s1 where "s1 = s\<lparr>particles := ?ps[i := p']\<rparr>"
  have step: "?body i s = Some s1" using i p' by (simp add: s1_def)
  have ps1: "particles s1 = ?ps[i := p']" by (simp add: s1_def)
  have L1: "\<forall>j\<in>set L. j < length (particles s1)" using L by (simp add: ps1)
  from Cons.IH [OF L1] obtain ps' where
    run: "for_each ?body L s1 = Some (s1\<lparr>particles := ps'\<rparr>)"
    and len: "length ps' = length (particles s1)"
    and all: "\<forall>j<length ps'.
            pos (ps' ! j) = pos (particles s1 ! j) \<and> state (ps' ! j) = state (particles s1 ! j)
          \<and> (j \<notin> set L \<longrightarrow> ps' ! j = particles s1 ! j)
          \<and> (state (particles s1 ! j) \<noteq> UPDATING \<longrightarrow> ps' ! j = particles s1 ! j)
          \<and> (j \<in> set L \<longrightarrow> (\<exists>q. pos q = pos (particles s1 ! j) \<and> state q = state (particles s1 ! j)
                   \<and> (distinct L \<longrightarrow> q = particles s1 ! j)
                   \<and> resample_particle s1 q = Some (ps' ! j)))"
    by blast
  have rs1: "\<And>q. resample_particle s1 q = resample_particle s q" by (simp add: s1_def)
  have nth1: "\<And>j. j < length ?ps \<Longrightarrow>
      pos (particles s1 ! j) = pos (?ps ! j) \<and> state (particles s1 ! j) = state (?ps ! j)"
    using pp sp i by (auto simp add: ps1 nth_list_update)
  have len': "length ps' = length ?ps" using len by (simp add: ps1)
  have "for_each ?body (i # L) s = Some (s\<lparr>particles := ps'\<rparr>)"
    using step run by (simp add: s1_def)
  moreover have "\<forall>j<length ps'.
            pos (ps' ! j) = pos (?ps ! j) \<and> state (ps' ! j) = state (?ps ! j)
          \<and> (j \<notin> set (i # L) \<longrightarrow> ps' ! j = ?ps ! j)
          \<and> (state (?ps ! j) \<noteq> UPDATING \<longrightarrow> ps' ! j = ?ps ! j)
          \<and> (j \<in> set (i # L) \<longrightarrow> (\<exists>q. pos q = pos (?ps ! j) \<and> state q = state (?ps ! j)
                   \<and> (distinct (i # L) \<longrightarrow> q = ?ps ! j)
                   \<and> resample_particle s q = Some (ps' ! j)))"
  proof (intro allI impI)
    fix j assume j: "j < length ps'"
    then have j': "j < length ?ps" using len' by simp
    from all j have
      a1: "pos (ps' ! j) = pos (particles s1 ! j)" "state (ps' ! j) = state (particles s1 ! j)"
      and a2: "j \<notin> set L \<Longrightarrow> ps' ! j = particles s1 ! j"
      and a3: "state (particles s1 ! j) \<noteq> UPDATING \<Longrightarrow> ps' ! j = particles s1 ! j"
      and a4: "j \<in> set L \<Longrightarrow> \<exists>q. pos q = pos (particles s1 ! j) \<and> state q = state (particles s1 ! j)
                   \<and> (distinct L \<longrightarrow> q = particles s1 ! j)
                   \<and> resample_particle s1 q = Some (ps' ! j)"
      by blast+
    have k1: "pos (ps' ! j) = pos (?ps ! j) \<and> state (ps' ! j) = state (?ps ! j)"
      using a1 nth1 [OF j'] by simp
    have c2: "j \<notin> set (i # L) \<longrightarrow> ps' ! j = ?ps ! j"
      using a2 by (simp add: ps1)
    have c3: "state (?ps ! j) \<noteq> UPDATING \<longrightarrow> ps' ! j = ?ps ! j"
    proof
      assume n: "state (?ps ! j) \<noteq> UPDATING"
      then have "state (particles s1 ! j) \<noteq> UPDATING" using nth1 [OF j'] by simp
      then have "ps' ! j = particles s1 ! j" by (rule a3)
      also have "particles s1 ! j = ?ps ! j"
        using keep n j' by (cases "j = i") (simp_all add: ps1)
      finally show "ps' ! j = ?ps ! j" .
    qed
    have k4: "j \<in> set (i # L) \<longrightarrow> (\<exists>q. pos q = pos (?ps ! j) \<and> state q = state (?ps ! j)
                   \<and> (distinct (i # L) \<longrightarrow> q = ?ps ! j)
                   \<and> resample_particle s q = Some (ps' ! j))"
    proof
      assume m: "j \<in> set (i # L)"
      show "\<exists>q. pos q = pos (?ps ! j) \<and> state q = state (?ps ! j)
                   \<and> (distinct (i # L) \<longrightarrow> q = ?ps ! j)
                   \<and> resample_particle s q = Some (ps' ! j)"
      proof (cases "j \<in> set L")
        case True
        from a4 [OF True] obtain q where q: "pos q = pos (particles s1 ! j)"
          "state q = state (particles s1 ! j)" "distinct L \<longrightarrow> q = particles s1 ! j"
          "resample_particle s1 q = Some (ps' ! j)" by blast
        have "distinct (i # L) \<longrightarrow> q = ?ps ! j"
        proof
          assume d: "distinct (i # L)"
          then have "j \<noteq> i" using True by auto
          then show "q = ?ps ! j" using q(3) d by (simp add: ps1)
        qed
        then show ?thesis using q nth1 [OF j'] rs1 by auto
      next
        case False
        then have ji: "j = i" using m by simp
        have "ps' ! j = p'" using a2 [OF False] i by (simp add: ps1 ji)
        then show ?thesis using p' ji by auto
      qed
    qed
    from k1 c2 c3 k4
    show "pos (ps' ! j) = pos (?ps ! j) \<and> state (ps' ! j) = state (?ps ! j)
          \<and> (j \<notin> set (i # L) \<longrightarrow> ps' ! j = ?ps ! j)
          \<and> (state (?ps ! j) \<noteq> UPDATING \<longrightarrow> ps' ! j = ?ps ! j)
          \<and> (j \<in> set (i # L) \<longrightarrow> (\<exists>q. pos q = pos (?ps ! j) \<and> state q = state (?ps ! j)
                   \<and> (distinct (i # L) \<longrightarrow> q = ?ps ! j)
                   \<and> resample_particle s q = Some (ps' ! j)))" by blast
  qed
  ultimately show ?case using len' by blast
qed

lemma resample_eq:
  "resample st = for_each (\<lambda>i s. if i < length (particles s) then do {
          p' \<leftarrow> resample_particle s (particles s ! i);
          Some (s\<lparr>particles := (particles s)[i := p']\<rparr>)
        } else None) (active_particles st) st"
  by (simp add: resample_def parallel_for_each_active_particle_def)

text \<open>
  C5: for an active particle in state UPDATING (each particle listed once), the velocity
  after resample is the velocity gathered from the grid when the flag \<open>apic\<close> is set, and
  the old velocity plus the difference of the gathered grid velocity and the gathered
  backup grid velocity when it is not.
\<close>

theorem resample_velocity_blend:
  assumes "\<forall>i\<in>set (active_particles st). i < length (particles st)"
    and "distinct (active_particles st)"
    and "i \<in> set (active_particles st)"
    and "state (particles st ! i) = UPDATING"
  shows "\<exists>st'. resample st = Some st' \<and>
     v (particles st' ! i) =
       (if apic st then gathered_velocity st (pos (particles st ! i))
        else v (particles st ! i) +
               (gathered_velocity st (pos (particles st ! i))
                - gathered_velocity_backup st (pos (particles st ! i))))"
proof -
  from resample_loop [OF assms(1)] obtain ps' where
    run: "resample st = Some (st\<lparr>particles := ps'\<rparr>)"
    and len: "length ps' = length (particles st)"
    and all: "\<forall>j<length ps'. j \<in> set (active_particles st) \<longrightarrow>
        (\<exists>q. (distinct (active_particles st) \<longrightarrow> q = particles st ! j)
            \<and> resample_particle st q = Some (ps' ! j))"
    unfolding resample_eq by blast
  have "i < length ps'" using assms(1,3) len by simp
  with all assms(2,3) have r: "resample_particle st (particles st ! i) = Some (ps' ! i)"
    by auto
  from resample_particle_UPDATING [OF assms(4), of st] r
  have "v (ps' ! i) =
       (if apic st then gathered_velocity st (pos (particles st ! i))
        else v (particles st ! i) +
               (gathered_velocity st (pos (particles st ! i))
                - gathered_velocity_backup st (pos (particles st ! i))))" by auto
  with run show ?thesis by simp
qed

theorem resample_velocity_blend_witness:
  "active_particles (example_state True) = [0, 1]
   \<and> length (particles (example_state True)) = 2
   \<and> state (particles (example_state True) ! 0) = UPDATING
   \<and> apic (example_state True) \<and> \<not> apic (example_state False)
   \<and> v (particles (example_state False) ! 0) = Vector3 1 2 3
   \<and> gathered_velocity (example_state True) (pos (particles (example_state True) ! 0))
        = Vector3 (8 / 27) (- 16 / 27) 0
   \<and> gathered_velocity_backup (example_state False) (pos (particles (example_state False) ! 0))
        = Vector3 0 (8 / 27) 0
   \<and> (\<exists>st'. resample (example_state True) = Some st'
         \<and> v (particles st' ! 0) = Vector3 (8 / 27) (- 16 / 27) 0)
   \<and> (\<exists>st'. resample (example_state False) = Some st'
         \<and> v (particles st' ! 0) = Vector3 (1 + 8 / 27) (2 - 24 / 27) 3)"
  using resample_velocity_blend [of "example_state True" 0]
    resample_velocity_blend [of "example_state False" 0]
  by (simp add: example_state_def example_particle_def gathered_velocity_def
      gathered_velocity_backup_def Vector_of_index_def Vector3_defs)



lemma out_outerProduct:
  "Matrix3 (Vector3 (vx aa * vx bb) (vy aa * vx bb) (vz aa * vx bb))
           (Vector3 (vx aa * vy bb) (vy aa * vy bb) (vz aa * vy bb))
           (Vector3 (vx aa * vz bb) (vy aa * vz bb) (vz aa * vz bb)) = outerProduct aa bb"
  by (simp add: outerProduct_def vscale_def mult.commute)

lemma resample_gather_affine:
  assumes "set L \<subseteq> set (get_bounded_rasterization_region r (pos p))"
  shows "\<exists>a'. for_each (resample_node st p) L a = Some a'
     \<and> l_b a' = l_b a + sum_list (map (\<lambda>ind. mscale (kernel_weight (pos p - Vector_of_index ind))
                     (outerProduct (grid_velocity st ind) (Vector_of_index ind - pos p))) L)"
  using assms
proof (induction L arbitrary: a)
  case Nil
  then show ?case by simp
next
  case (Cons ind L)
  from Cons.prems have mem: "ind \<in> set (get_bounded_rasterization_region r (pos p))"
    and sub: "set L \<subseteq> set (get_bounded_rasterization_region r (pos p))" by simp_all
  obtain g where g: "dw_Vector3 (pos p - Vector_of_index ind) = Some g"
    using region_offsets(1) [OF mem] dw_Vector3_Some by blast
  obtain a1 where a1: "resample_node st p ind a = Some a1"
    and b1: "l_b a1 = l_b a + mscale (kernel_weight (pos p - Vector_of_index ind))
                     (outerProduct (grid_velocity st ind) (Vector_of_index ind - pos p))"
    using g kernel_weight_region(1) [OF mem]
    by (simp add: resample_node_def Let_def out_outerProduct)
  from Cons.IH [OF sub, of a1] obtain a' where
    "for_each (resample_node st p) L a1 = Some a'"
    "l_b a' = l_b a1 + sum_list (map (\<lambda>ind. mscale (kernel_weight (pos p - Vector_of_index ind))
                     (outerProduct (grid_velocity st ind) (Vector_of_index ind - pos p))) L)"
    by blast
  then show ?case using a1 b1 by (simp add: add.assoc)
qed

text \<open>
  With the flag \<open>apic\<close> set and a region of 64 nodes the body keeps the accumulated affine
  term, damped.
\<close>

lemma resample_particle_affine:
  assumes "state p = UPDATING" and "apic st"
    and "length (get_bounded_rasterization_region (res st) (pos p)) = 64"
  shows "\<exists>p'. resample_particle st p = Some p'
     \<and> apic_b p' = mscale (max 0 (1 - base_delta_t st
            * real_of_int (current_t_int st - last_update p) * affine_damping st))
          (gathered_affine st (pos p))"
proof -
  let ?a0 = "\<lparr>l_v = 0, l_bv = 0, l_cdg = Matrix_diag 0, l_b = Matrix_diag 0, l_count = 0\<rparr>"
  let ?R = "get_bounded_rasterization_region (res st) (pos p)"
  from resample_gather [of ?R "res st" p st ?a0]
  obtain a' where a': "for_each (resample_node st p) ?R ?a0 = Some a'"
    and c': "l_count a' = int (length ?R)" by auto
  from resample_gather_affine [of ?R "res st" p st ?a0] a'
  have b': "l_b a' = gathered_affine st (pos p)"
    by (auto simp add: gathered_affine_def)
  show ?thesis
    using assms a' b' c'
    by (simp add: resample_particle_def Let_def del: Matrix_diag_0)
qed

lemma example_shear_region:
  "length (get_bounded_rasterization_region (3, 3, 3) (Vector3 (3 / 2) (3 / 2) (3 / 2))) = 64"
  by (rule length_region_full) (simp add: neighbourhood_inside_grid_def)

lemma example_shear_affine:
  "gathered_affine (example_shear_state a) (Vector3 (3 / 2) (3 / 2) (3 / 2))
     = Matrix3 (Vector3 (1 / 3) 0 0) (Vector3 0 0 0) (Vector3 0 0 0)"
  by (simp add: gathered_affine_def example_shear_state_def
      get_bounded_rasterization_region_def Let_def upto_rec1 kernel_weight_def
      w_Vector3_def w_def Vector_of_index_def Vector3_defs mscale_def outerProduct_def
      plus_Matrix3_def zero_Matrix3_def)

lemma example_shear_resample:
  "\<exists>st'. resample (example_shear_state True) = Some st'
     \<and> apic_b (particles st' ! 0) = Matrix3 (Vector3 (1 / 3) 0 0) (Vector3 0 0 0) (Vector3 0 0 0)"
proof -
  define st where "st = example_shear_state True"
  define p where "p = particles st ! 0"
  have act: "active_particles st = [0]" and len: "length (particles st) = 1"
    by (simp_all add: st_def example_shear_state_def)
  have f: "state p = UPDATING" "apic st" "pos p = Vector3 (3 / 2) (3 / 2) (3 / 2)"
    "res st = (3, 3, 3)" "affine_damping st = 0"
    by (simp_all add: p_def st_def example_shear_state_def example_particle_def)
  have n: "length (get_bounded_rasterization_region (res st) (pos p)) = 64"
    by (simp add: f example_shear_region)
  from resample_particle_affine [OF f(1,2) n] obtain p' where
    p': "resample_particle st p = Some p'"
    and b: "apic_b p' = mscale (max 0 (1 - base_delta_t st
            * real_of_int (current_t_int st - last_update p) * affine_damping st))
          (gathered_affine st (pos p))" by blast
  have "gathered_affine st (pos p) = Matrix3 (Vector3 (1 / 3) 0 0) (Vector3 0 0 0) (Vector3 0 0 0)"
    unfolding f(3) st_def by (rule example_shear_affine)
  with b have b': "apic_b p' = Matrix3 (Vector3 (1 / 3) 0 0) (Vector3 0 0 0) (Vector3 0 0 0)"
    by (simp add: f(5) mscale_def vscale_def)
  have "resample st = Some (st\<lparr>particles := (particles st)[0 := p']\<rparr>)"
    using p' act len by (cases "particles st") (simp_all add: resample_eq p_def)
  then show ?thesis using b' len unfolding st_def by auto
qed

text \<open>
  C9: when the flag \<open>apic\<close> is not set, resample leaves the affine matrix \<open>apic_b\<close> of
  every active particle in state UPDATING zero, whatever the number of nodes of its
  region.
\<close>

theorem resample_without_apic_zero_affine:
  assumes "\<forall>i\<in>set (active_particles st). i < length (particles st)"
    and "\<not> apic st"
  shows "\<exists>st'. resample st = Some st' \<and>
     (\<forall>i\<in>set (active_particles st). state (particles st ! i) = UPDATING
         \<longrightarrow> apic_b (particles st' ! i) = 0)"
proof -
  from resample_loop [OF assms(1)] obtain ps' where
    run: "resample st = Some (st\<lparr>particles := ps'\<rparr>)"
    and len: "length ps' = length (particles st)"
    and all: "\<forall>j<length ps'. j \<in> set (active_particles st) \<longrightarrow>
        (\<exists>q. pos q = pos (particles st ! j) \<and> state q = state (particles st ! j)
            \<and> resample_particle st q = Some (ps' ! j))"
    unfolding resample_eq by blast
  have "apic_b (ps' ! i) = 0"
    if i: "i \<in> set (active_particles st)" and u: "state (particles st ! i) = UPDATING" for i
  proof -
    have "i < length ps'" using assms(1) i len by simp
    with all i obtain q where q: "state q = state (particles st ! i)"
      "resample_particle st q = Some (ps' ! i)" by blast
    have "state q = UPDATING" using q(1) u by simp
    from resample_particle_UPDATING [OF this, of st] q(2) assms(2)
    show ?thesis by auto
  qed
  with run show ?thesis by simp
qed

text \<open>
  A particle with a region of 64 nodes on a grid whose velocity grows along the first
  axis: with the flag set the affine matrix after resample is not zero, without the flag
  it is.
\<close>

theorem resample_without_apic_zero_affine_witness:
  "active_particles (example_shear_state False) = [0]
   \<and> length (particles (example_shear_state False)) = 1
   \<and> \<not> apic (example_shear_state False)
   \<and> state (particles (example_shear_state False) ! 0) = UPDATING
   \<and> length (get_bounded_rasterization_region (res (example_shear_state False))
        (pos (particles (example_shear_state False) ! 0))) = 64
   \<and> (\<exists>st'. resample (example_shear_state True) = Some st'
        \<and> apic_b (particles st' ! 0)
            = Matrix3 (Vector3 (1 / 3) 0 0) (Vector3 0 0 0) (Vector3 0 0 0))
   \<and> (\<exists>st'. resample (example_shear_state False) = Some st' \<and> apic_b (particles st' ! 0) = 0)"
proof -
  have h: "\<forall>i\<in>set (active_particles (example_shear_state False)).
      i < length (particles (example_shear_state False))"
    by (simp add: example_shear_state_def)
  have n: "\<not> apic (example_shear_state False)" by (simp add: example_shear_state_def)
  from resample_without_apic_zero_affine [OF h n]
  have "\<exists>st'. resample (example_shear_state False) = Some st' \<and> apic_b (particles st' ! 0) = 0"
    by (auto simp add: example_shear_state_def example_particle_def)
  then show ?thesis
    using example_shear_resample example_shear_region
    by (simp add: example_shear_state_def example_particle_def)
qed

subsection \<open>Position integration\<close>

text \<open>
  C10: resample followed by the integration loop keeps every particle in state INACTIVE
  or BUFFER as it is, with all its fields.
\<close>

theorem non_updating_particles_kept:
  assumes "\<forall>i\<in>set (active_particles st). i < length (particles st)"
  shows "\<exists>st'. resample st = Some st'
     \<and> length (particles (integrate_positions plasticity eps st')) = length (particles st)
     \<and> (\<forall>j<length (particles st).
           state (particles st ! j) = INACTIVE \<or> state (particles st ! j) = BUFFER
           \<longrightarrow> particles (integrate_positions plasticity eps st') ! j = particles st ! j)"
proof -
  from resample_loop [OF assms(1)] obtain ps' where
    run: "resample st = Some (st\<lparr>particles := ps'\<rparr>)"
    and len: "length ps' = length (particles st)"
    and all: "\<forall>j<length ps'. state (particles st ! j) \<noteq> UPDATING \<longrightarrow> ps' ! j = particles st ! j"
    unfolding resample_eq by blast
  have "particles (integrate_positions plasticity eps (st\<lparr>particles := ps'\<rparr>)) ! j = particles st ! j"
    if j: "j < length (particles st)"
      and s: "state (particles st ! j) = INACTIVE \<or> state (particles st ! j) = BUFFER" for j
  proof -
    have n: "state (particles st ! j) \<noteq> UPDATING" using s by auto
    then have "ps' ! j = particles st ! j" using all j len by simp
    then show ?thesis using n j len by (simp add: integrate_positions_def)
  qed
  moreover have "length (particles (integrate_positions plasticity eps (st\<lparr>particles := ps'\<rparr>)))
      = length (particles st)"
    using len by (simp add: integrate_positions_def)
  ultimately show ?thesis using run by simp
qed

theorem non_updating_particles_kept_witness:
  "active_particles (example_state True) = [0, 1]
   \<and> length (particles (example_state True)) = 2
   \<and> state (particles (example_state True) ! 1) = BUFFER
   \<and> (\<exists>st'. resample (example_state True) = Some st'
        \<and> length (particles (integrate_positions (\<lambda>p. p) (1 / 1000000) st')) = 2
        \<and> particles (integrate_positions (\<lambda>p. p) (1 / 1000000) st') ! 1
            = particles (example_state True) ! 1)"
proof -
  have h: "\<forall>i\<in>set (active_particles (example_state True)).
      i < length (particles (example_state True))"
    by (simp add: example_state_def)
  from non_updating_particles_kept [OF h, of "\<lambda>p. p" "1 / 1000000"] show ?thesis
    by (auto simp add: example_state_def example_particle_def)
qed

lemma float32_exponent_eq:
  assumes "2 powi k \<le> \<bar>x\<bar>" and "\<bar>x\<bar> < 2 powi (k + 1)"
  shows "float32_exponent x = k"
proof -
  have pos: "0 < \<bar>x\<bar>" using assms(1) by (smt (verit) zero_less_power_int)
  have "(2::real) powr real_of_int k = 2 powi k"
    by (simp add: powr_real_of_int')
  moreover have "(2::real) powr real_of_int (k + 1) = 2 powi (k + 1)"
    by (rule powr_real_of_int') simp_all
  then have "(2::real) powr (real_of_int k + 1) = 2 powi (k + 1)" by simp
  ultimately show ?thesis
    unfolding float32_exponent_def using assms pos
    by (simp add: floor_log_eq_powr_iff)
qed

lemma round_ties_even_below:
  assumes "0 < d" and "d < 1 / 2"
  shows "round_ties_even (real_of_int n - d) = n"
proof -
  have f: "\<lfloor>real_of_int n - d\<rfloor> = n - 1" using assms by linarith
  show ?thesis using assms by (simp add: round_ties_even_def f Let_def)
qed

lemma round_ties_even_of_int: "round_ties_even (real_of_int n) = n"
  by (simp add: round_ties_even_def)

text \<open>The float nearest to \<open>10\<^sup>-\<^sup>6\<close>, the value of \<^verbatim>\<open>1e-6f\<close>.\<close>

lemma float32_round_millionth: "float32_round (1 / 1000000) = 8796093 / 2 ^ 43"
proof -
  have e: "float32_exponent (1 / 1000000) = - 20"
    by (rule float32_exponent_eq) (simp_all add: power_int_minus)
  have "(1 / 1000000 :: real) / 2 powi (- 43) = 8796093 + 347 / 15625"
    by (simp add: power_int_minus)
  then have "round_ties_even ((1 / 1000000) / 2 powi (- 43)) = 8796093"
    by (simp add: round_ties_even_def Let_def)
  then show ?thesis
    by (simp add: float32_round_def e Let_def power_int_minus)
qed

text \<open>
  Between 32 and 64 the floats are \<open>2\<^sup>-\<^sup>1\<^sup>8\<close> apart, so a resolution from 33 to 64 minus a
  positive \<open>eps\<close> below \<open>2\<^sup>-\<^sup>1\<^sup>9\<close> rounds back to the resolution.
\<close>

lemma float32_round_resolution:
  assumes "33 \<le> r" and "r \<le> 64"
  shows "float32_round (real_of_int r) = real_of_int r"
proof (cases "r = 64")
  case True
  have "float32_exponent 64 = 6"
    by (rule float32_exponent_eq) simp_all
  then show ?thesis
    using True round_ties_even_of_int [of 8388608]
    by (simp add: float32_round_def Let_def power_int_minus)
next
  case False
  have r: "33 \<le> real_of_int r" "real_of_int r < 64" using assms False by simp_all
  have e: "float32_exponent (real_of_int r) = 5"
    by (rule float32_exponent_eq) (use r in simp_all)
  have "real_of_int r / 2 powi (- 18) = real_of_int (r * 262144)"
    by (simp add: power_int_minus)
  then have "round_ties_even (real_of_int r / 2 powi (- 18)) = r * 262144"
    by (simp only: round_ties_even_of_int)
  moreover have "real_of_int r \<noteq> 0" using r by simp
  ultimately show ?thesis
    by (simp add: float32_round_def e Let_def power_int_minus)
qed

lemma float32_clamp_bound:
  assumes "33 \<le> r" and "r \<le> 64" and "0 < eps" and "eps < 1 / 524288"
  shows "float32_round (float32_round (real_of_int r) - eps) = real_of_int r"
proof -
  let ?x = "real_of_int r - eps"
  have r: "33 \<le> real_of_int r" "real_of_int r \<le> 64" using assms by simp_all
  have x: "32 \<le> ?x" "?x < 64" using r assms(3,4) by linarith+
  have e: "float32_exponent ?x = 5"
    by (rule float32_exponent_eq) (use x in simp_all)
  have "?x / 2 powi (- 18) = real_of_int (r * 262144) - eps * 262144"
    by (simp add: power_int_minus field_simps)
  moreover have "round_ties_even (real_of_int (r * 262144) - eps * 262144) = r * 262144"
    by (rule round_ties_even_below) (use assms(3,4) in simp_all)
  ultimately have "round_ties_even (?x / 2 powi (- 18)) = r * 262144" by simp
  moreover have "?x \<noteq> 0" using x by simp
  ultimately have "float32_round ?x = real_of_int r"
    by (simp add: float32_round_def e Let_def power_int_minus)
  then show ?thesis by (simp only: float32_round_resolution [OF assms(1,2)])
qed

lemma integrate_particle_pos:
  assumes "res st = (rx, ry, rz)"
  shows "pos (integrate_particle eps st p) =
     (let q = pos p + vscale (real_of_int (current_t_int st - last_update p) * base_delta_t st) (v p)
      in Vector3 (clamp (vx q) 0 (float32_round (float32_round (real_of_int rx) - eps)))
                 (clamp (vy q) 0 (float32_round (float32_round (real_of_int ry) - eps)))
                 (clamp (vz q) 0 (float32_round (float32_round (real_of_int rz) - eps))))"
  by (simp add: integrate_particle_def assms Let_def)

text \<open>
  On a grid of resolution 33 to 64 on the first axis, with \<open>eps\<close> positive and below
  \<open>2\<^sup>-\<^sup>1\<^sup>9\<close>, a particle integrated beyond the resolution is left at the resolution
  itself.
\<close>

lemma integrate_particle_at_resolution:
  assumes "res st = (rx, ry, rz)" and "33 \<le> rx" and "rx \<le> 64"
    and "0 < eps" and "eps < 1 / 524288"
    and "real_of_int rx < vx (pos p + vscale (real_of_int (current_t_int st - last_update p)
                                       * base_delta_t st) (v p))"
  shows "vx (pos (integrate_particle eps st p)) = real_of_int rx"
  using assms(2,6)
  by (simp add: integrate_particle_pos [OF assms(1)] Let_def
      float32_clamp_bound [OF assms(2-5)] clamp_def)

text \<open>
  C8, on the code: with resolution 64 and \<open>eps\<close> the float \<^verbatim>\<open>1e-6f\<close>, the bound
  \<^verbatim>\<open>res[0] - eps\<close> of the clamp is 64 itself; the updating particle at \<open>63.5\<close> that
  moves one cell outwards is left by the integration loop at the coordinate 64, which is
  not below the resolution.
\<close>

theorem clamp_bound_reaches_resolution:
  "float32_round (1 / 1000000) = 8796093 / 2 ^ 43
   \<and> float32_round (float32_round (real_of_int 64) - float32_round (1 / 1000000)) = 64
   \<and> res example_wall_state = (64, 64, 64)
   \<and> state (particles example_wall_state ! 0) = UPDATING
   \<and> pos (particles example_wall_state ! 0) = Vector3 (127 / 2) 1 1
   \<and> pos (particles (integrate_positions (\<lambda>p. p) (float32_round (1 / 1000000))
             example_wall_state) ! 0) = Vector3 64 1 1
   \<and> \<not> inside_domain (res example_wall_state)
         (pos (particles (integrate_positions (\<lambda>p. p) (float32_round (1 / 1000000))
                 example_wall_state) ! 0))"
proof -
  define eps where "eps = float32_round (1 / 1000000)"
  have eps: "eps = 8796093 / 2 ^ 43" by (simp only: eps_def float32_round_millionth)
  have b: "float32_round (float32_round (real_of_int 64) - eps) = real_of_int 64"
    by (rule float32_clamp_bound) (simp_all add: eps)
  have r: "res example_wall_state = (64, 64, 64)" by (simp add: example_wall_state_def)
  have p0: "particles (integrate_positions (\<lambda>p. p) eps example_wall_state) ! 0
      = integrate_particle eps example_wall_state (particles example_wall_state ! 0)"
    by (simp add: integrate_positions_def example_wall_state_def example_particle_def)
  have "pos (integrate_particle eps example_wall_state (particles example_wall_state ! 0))
      = Vector3 64 1 1"
    unfolding integrate_particle_pos [OF r] b
    by (simp add: example_wall_state_def example_particle_def Let_def clamp_def Vector3_defs)
  with p0 have v: "pos (particles (integrate_positions (\<lambda>p. p) eps example_wall_state) ! 0)
      = Vector3 64 1 1" by simp
  then have n: "\<not> inside_domain (res example_wall_state)
      (pos (particles (integrate_positions (\<lambda>p. p) eps example_wall_state) ! 0))"
    by (simp add: r inside_domain_def)
  show ?thesis
    using eps b v n unfolding eps_def [symmetric]
    by (simp add: example_wall_state_def example_particle_def)
qed

subsection \<open>Rasterize\<close>

lemma w_unchecked_partition:
  fixes a :: real
  shows "w_unchecked (real_of_int (\<lfloor>a\<rfloor> - 1) - a) + (w_unchecked (real_of_int \<lfloor>a\<rfloor> - a)
       + (w_unchecked (real_of_int (\<lfloor>a\<rfloor> + 1) - a) + w_unchecked (real_of_int (\<lfloor>a\<rfloor> + 2) - a))) = 1"
proof -
  define f where "f = a - real_of_int \<lfloor>a\<rfloor>"
  have f: "0 \<le> f" "f < 1" unfolding f_def by linarith+
  have e: "real_of_int (\<lfloor>a\<rfloor> - 1) - a = - 1 - f" "real_of_int \<lfloor>a\<rfloor> - a = - f"
    "real_of_int (\<lfloor>a\<rfloor> + 1) - a = 1 - f" "real_of_int (\<lfloor>a\<rfloor> + 2) - a = 2 - f"
    by (simp_all add: f_def)
  show ?thesis unfolding e using f
    by (simp add: w_unchecked_def Let_def abs_if) (simp add: field_simps)
qed

lemma w_unchecked_axis:
  "sum_list (map (\<lambda>i. w_unchecked (real_of_int i - a)) [\<lfloor>a\<rfloor> - 1..\<lfloor>a\<rfloor> + 2]) = 1"
  using w_unchecked_partition [of a] by (simp add: upto_four)

lemma kernel_weight_product:
  assumes "(i, j, k) \<in> set (get_bounded_rasterization_region r p)"
  shows "kernel_weight (Vector_of_index (i, j, k) - p)
       = w_unchecked (real_of_int i - vx p) * (w_unchecked (real_of_int j - vy p)
           * w_unchecked (real_of_int k - vz p))"
  using region_offsets(2) [OF assms]
  by (simp add: kernel_weight_def w_Vector3_Some)
     (simp add: Vector_of_index_def minus_Vector3_def)

lemma kernel_partition:
  assumes "neighbourhood_inside_grid r p"
  shows "sum_list (map (\<lambda>ind. kernel_weight (Vector_of_index ind - p))
           (get_bounded_rasterization_region r p)) = 1"
proof -
  let ?R = "get_bounded_rasterization_region r p"
  have "map (\<lambda>ind. kernel_weight (Vector_of_index ind - p)) ?R
      = map (\<lambda>(i, j, k). w_unchecked (real_of_int i - vx p) * (w_unchecked (real_of_int j - vy p)
           * w_unchecked (real_of_int k - vz p))) ?R"
    by (rule map_cong [OF refl]) (auto simp add: kernel_weight_product)
  then have "sum_list (map (\<lambda>ind. kernel_weight (Vector_of_index ind - p)) ?R)
      = sum_list (map (\<lambda>(i, j, k). w_unchecked (real_of_int i - vx p) * (w_unchecked (real_of_int j - vy p)
           * w_unchecked (real_of_int k - vz p))) ?R)" by (rule arg_cong)
  also have "\<dots> = 1"
    unfolding region_full [OF assms] sum_list_box w_unchecked_axis by simp
  finally show ?thesis .
qed

lemma rasterize_node_step:
  assumes "ind \<in> set (get_bounded_rasterization_region r (pos p))"
  shows "rasterize_node p ind st =
     Some (st\<lparr>grid_mass := (grid_mass st)
                (ind := grid_mass st ind + kernel_weight (Vector_of_index ind - pos p) * mass p),
              grid_velocity := (grid_velocity st)
                (ind := grid_velocity st ind +
                   vscale (kernel_weight (Vector_of_index ind - pos p) * mass p)
                     (v p + mat_vec (mscale 3 (apic_b p)) (Vector_of_index ind - pos p)))\<rparr>)"
  using kernel_weight_region(2) [OF assms]
  by (simp add: rasterize_node_def Let_def)

lemma rasterize_particle_mass:
  assumes "same_particles st s"
  shows "\<exists>s'. rasterize_particle p s = Some s' \<and> same_particles st s'
     \<and> total_grid_mass s' = total_grid_mass s
         + sum_list (map (\<lambda>ind. kernel_weight (Vector_of_index ind - pos p) * mass p)
             (get_bounded_rasterization_region (res st) (pos p)))"
proof -
  have r: "res s = res st" using assms by (simp add: same_particles_def)
  have step: "\<exists>s'. rasterize_node p ind s0 = Some s' \<and> same_particles st s'
      \<and> total_grid_mass s' = total_grid_mass s0 + kernel_weight (Vector_of_index ind - pos p) * mass p"
    if "ind \<in> set (get_bounded_rasterization_region (res st) (pos p))" "same_particles st s0"
    for ind s0
  proof -
    have g: "ind \<in> set (grid_region (res s0))"
      using that region_subset_grid [of "res st" "pos p"] by (auto simp add: same_particles_def)
    show ?thesis
      using that(2) sum_list_fun_upd [OF distinct_grid_region g, of "grid_mass s0"]
      by (simp add: rasterize_node_step [OF that(1)] same_particles_def total_grid_mass_def)
  qed
  show ?thesis
    unfolding rasterize_particle_def r
    by (rule for_each_accum [where I = "same_particles st"]) (use step assms in auto)
qed

lemma rasterize_loop_mass:
  assumes "same_particles st s"
    and "\<forall>i\<in>set L. i < length (particles st)
            \<and> neighbourhood_inside_grid (res st) (pos (particles st ! i))"
  shows "\<exists>s'. for_each (\<lambda>i s. if i < length (particles s)
                                 then rasterize_particle (particles s ! i) s else None) L s
          = Some s' \<and> same_particles st s'
     \<and> total_grid_mass s' = total_grid_mass s + sum_list (map (\<lambda>i. mass (particles st ! i)) L)"
proof (rule for_each_accum [where I = "same_particles st"])
  fix i s0 assume i: "i \<in> set L" and s0: "same_particles st s0"
  let ?p = "particles st ! i"
  from assms(2) i have il: "i < length (particles st)"
    and nb: "neighbourhood_inside_grid (res st) (pos ?p)" by auto
  have "sum_list (map (\<lambda>ind. kernel_weight (Vector_of_index ind - pos ?p) * mass ?p)
             (get_bounded_rasterization_region (res st) (pos ?p))) = mass ?p"
    using kernel_partition [OF nb] by (simp add: sum_list_mult_const)
  with rasterize_particle_mass [OF s0, of ?p] s0 il
  show "\<exists>s'. (if i < length (particles s0) then rasterize_particle (particles s0 ! i) s0 else None)
          = Some s' \<and> same_particles st s' \<and> total_grid_mass s' = total_grid_mass s0 + mass ?p"
    by (simp add: same_particles_def)
qed (rule assms(1))

lemma normalize_loop:
  assumes "distinct G"
  shows "\<exists>s'. for_each normalize_node G s = Some s' \<and> grid_mass s' = grid_mass s
     \<and> (\<forall>ind. grid_velocity s' ind =
           (if ind \<in> set G \<and> 0 < grid_mass s ind
            then vscale (1 / grid_mass s ind) (grid_velocity s ind)
            else grid_velocity s ind))"
  using assms
proof (induction G arbitrary: s)
  case Nil
  then show ?case by simp
next
  case (Cons x G)
  from Cons.prems have x: "x \<notin> set G" and d: "distinct G" by simp_all
  obtain s1 where s1: "normalize_node x s = Some s1" "grid_mass s1 = grid_mass s"
    "grid_velocity s1 = (if 0 < grid_mass s x
        then (grid_velocity s)(x := vscale (1 / grid_mass s x) (grid_velocity s x))
        else grid_velocity s)"
    by (cases "0 < grid_mass s x") (simp_all add: normalize_node_def fdiv_def)
  from Cons.IH [OF d, of s1] obtain s' where
    s': "for_each normalize_node G s1 = Some s'" "grid_mass s' = grid_mass s1"
    "\<forall>ind. grid_velocity s' ind =
           (if ind \<in> set G \<and> 0 < grid_mass s1 ind
            then vscale (1 / grid_mass s1 ind) (grid_velocity s1 ind)
            else grid_velocity s1 ind)" by blast
  have "\<forall>ind. grid_velocity s' ind =
           (if ind \<in> set (x # G) \<and> 0 < grid_mass s ind
            then vscale (1 / grid_mass s ind) (grid_velocity s ind)
            else grid_velocity s ind)"
    using s'(3) s1(2,3) x by auto
  then show ?case using s1(1,2) s'(1,2) by simp
qed


lemma rasterize_scatter_eq:
  "rasterize_scatter st =
     for_each (\<lambda>i s. if i < length (particles s)
                       then rasterize_particle (particles s ! i) s else None)
       (active_particles st) (st\<lparr>grid_velocity := (\<lambda>ind. 0), grid_mass := (\<lambda>ind. 0)\<rparr>)"
  by (simp add: rasterize_scatter_def parallel_for_each_active_particle_def)

text \<open>
  C1: when the full neighbourhood of every active particle lies inside the grid,
  rasterize does not fail and the masses of all grid nodes sum to the sum of the masses of
  the active particles.
\<close>

theorem rasterize_conserves_mass:
  assumes "\<forall>i\<in>set (active_particles st). i < length (particles st)
            \<and> neighbourhood_inside_grid (res st) (pos (particles st ! i))"
  shows "\<exists>st'. rasterize st = Some st'
     \<and> sum_list (map (grid_mass st') (grid_region (res st)))
         = sum_list (map (\<lambda>i. mass (particles st ! i)) (active_particles st))"
proof -
  let ?st0 = "st\<lparr>grid_velocity := (\<lambda>ind. 0), grid_mass := (\<lambda>ind. 0)\<rparr>"
  have s0: "same_particles st ?st0" by (simp add: same_particles_def)
  have t0: "total_grid_mass ?st0 = 0" by (simp add: total_grid_mass_def)
  from rasterize_loop_mass [OF s0 assms] obtain st1 where
    st1: "rasterize_scatter st = Some st1" "same_particles st st1"
    "total_grid_mass st1 = sum_list (map (\<lambda>i. mass (particles st ! i)) (active_particles st))"
    unfolding rasterize_scatter_eq t0 by auto
  from normalize_loop [OF distinct_grid_region, of "res st1" st1] obtain st' where
    st': "for_each normalize_node (grid_region (res st1)) st1 = Some st'"
    "grid_mass st' = grid_mass st1" by blast
  have "res st1 = res st" using st1(2) by (simp add: same_particles_def)
  then show ?thesis using st1 st' by (simp add: rasterize_def total_grid_mass_def)
qed

theorem rasterize_conserves_mass_witness:
  "active_particles example_interior_state = [0, 1]
   \<and> length (particles example_interior_state) = 2
   \<and> neighbourhood_inside_grid (res example_interior_state) (pos (particles example_interior_state ! 0))
   \<and> neighbourhood_inside_grid (res example_interior_state) (pos (particles example_interior_state ! 1))
   \<and> (\<exists>st'. rasterize example_interior_state = Some st'
        \<and> sum_list (map (grid_mass st') (grid_region (res example_interior_state))) = 3)"
proof -
  have h: "\<forall>i\<in>set (active_particles example_interior_state).
      i < length (particles example_interior_state)
      \<and> neighbourhood_inside_grid (res example_interior_state)
           (pos (particles example_interior_state ! i))"
    by (simp add: example_interior_state_def example_particle_def neighbourhood_inside_grid_def)
  from rasterize_conserves_mass [OF h] h show ?thesis
    by (simp add: example_interior_state_def example_particle_def)
qed





end
